theory Spec2Isabelle
  imports Complex_Main
begin

section \<open>Data model of the support bot (src/bot.py)\<close>

text \<open>
  The bot keeps its state in four SQLite tables. A table is modelled as the list of its
  rows in rowid order, a row as a record whose fields are the table's columns. A nullable
  column is an \<open>option\<close>. A TIMESTAMP is an integer number of microseconds (the
  resolution of Python's \<open>datetime\<close>); SQLite compares the stored ISO strings
  lexicographically, which is the chronological order.
  The literal strings the code stores in the columns \<open>status\<close>, \<open>priority\<close> and
  \<open>direction\<close> are closed sets, hence datatypes. The column \<open>outbox.retry_count\<close> is
  only ever written as the default 0 or as a value read from it plus one, hence a natural
  number; \<open>chats.unread_count\<close> stays a signed integer.
\<close>

type_synonym timestamp = int

datatype status = Unread | Read | Answered | Closed

datatype priority = Normal | Vip | Urgent

record chat =
  user_id :: int
  username :: string
  first_name :: string
  last_name :: string
  topic_id :: "int option"
  status :: status
  priority :: priority
  unread_count :: int
  last_message_preview :: "string option"
  last_message_type :: "string option"
  last_message_at :: "timestamp option"
  last_reply_at :: "timestamp option"
  created_at :: timestamp
  is_archived :: int
  snoozed_until :: "timestamp option"
  followup_stage :: int
  followup_done :: int

datatype direction = To_topic | To_user

datatype outbox_status = Pending | Sent | Failed

record outbox_row =
  ob_id :: int
  ob_direction :: direction
  ob_from_chat_id :: int
  ob_to_chat_id :: int
  ob_message_id :: int
  ob_topic_id :: "int option"
  ob_retry_count :: nat
  ob_next_retry_at :: timestamp
  ob_status :: outbox_status
  ob_error :: "string option"
  ob_created_at :: timestamp

record sent_message =
  sm_id :: int
  sm_user_id :: int
  sm_topic_msg_id :: int
  sm_user_msg_id :: int
  sm_created_at :: timestamp

record message_log =
  ml_id :: int
  ml_user_id :: int
  ml_direction :: string
  ml_msg_type :: string
  ml_content :: string
  ml_file_id :: string
  ml_telegram_msg_id :: "int option"
  ml_created_at :: timestamp

text \<open>
  The database: the four tables, and for each AUTOINCREMENT key the largest id handed
  out so far (SQLite's \<open>sqlite_sequence\<close>).
\<close>

record db =
  chats :: "chat list"
  outbox :: "outbox_row list"
  outbox_seq :: int
  sent_messages :: "sent_message list"
  sent_messages_seq :: int
  messages :: "message_log list"
  messages_seq :: int

definition empty_db :: db where
  "empty_db = \<lparr>chats = [], outbox = [], outbox_seq = 0, sent_messages = [],
     sent_messages_seq = 0, messages = [], messages_seq = 0\<rparr>"

text \<open>\<open>UPDATE t SET ... WHERE p\<close>: every row that satisfies \<open>p\<close> is rewritten.\<close>

definition update_where :: "('r \<Rightarrow> bool) \<Rightarrow> ('r \<Rightarrow> 'r) \<Rightarrow> 'r list \<Rightarrow> 'r list" where
  "update_where p f rows = map (\<lambda>r. if p r then f r else r) rows"

text \<open>Durations: \<open>timedelta(seconds=s)\<close> and \<open>timedelta(hours=h)\<close> in microseconds.\<close>

definition timedelta_seconds :: "int \<Rightarrow> int" where
  "timedelta_seconds s = s * 1000000"

definition timedelta_hours :: "int \<Rightarrow> int" where
  "timedelta_hours h = h * 3600 * 1000000"

definition timedelta_days :: "int \<Rightarrow> int" where
  "timedelta_days d = d * 86400 * 1000000"

definition FOLLOWUP_HOURS_NORMAL :: int where
  "FOLLOWUP_HOURS_NORMAL = 24"

definition FOLLOWUP_HOURS_VIP :: int where
  "FOLLOWUP_HOURS_VIP = 12"

definition ARCHIVE_AFTER_DAYS :: int where
  "ARCHIVE_AFTER_DAYS = 14"

definition SUPPORT_GROUP_ID :: int where
  "SUPPORT_GROUP_ID = - 1003870321136"

section \<open>Chat manager (class Chat)\<close>

text \<open>\<open>Chat.get\<close>: the row of a user, if there is one.\<close>

definition Chat_get :: "int \<Rightarrow> db \<Rightarrow> chat option" where
  "Chat_get uid d = find (\<lambda>r. user_id r = uid) (chats d)"

definition Chat_get_by_topic :: "int \<Rightarrow> db \<Rightarrow> chat option" where
  "Chat_get_by_topic tid d = find (\<lambda>r. topic_id r = Some tid) (chats d)"

text \<open>
  \<open>Chat.create\<close> is an upsert on the primary key \<open>user_id\<close>. The inserted row takes the
  column defaults of the schema; \<open>ts\<close> is SQLite's CURRENT_TIMESTAMP, \<open>now\<close> is
  \<open>datetime.now()\<close>.
\<close>

definition new_chat :: "int \<Rightarrow> string \<Rightarrow> string \<Rightarrow> string \<Rightarrow> int \<Rightarrow> timestamp \<Rightarrow> timestamp \<Rightarrow> chat" where
  "new_chat uid uname fname lname tid now ts =
     \<lparr>user_id = uid, username = uname, first_name = fname, last_name = lname, topic_id = Some tid,
      status = Unread, priority = Normal, unread_count = 0,
      last_message_preview = None, last_message_type = None,
      last_message_at = Some now, last_reply_at = None, created_at = ts,
      is_archived = 0, snoozed_until = None, followup_stage = 0, followup_done = 0\<rparr>"

definition Chat_create :: "int \<Rightarrow> string \<Rightarrow> string \<Rightarrow> string \<Rightarrow> int \<Rightarrow> timestamp \<Rightarrow> timestamp \<Rightarrow> db \<Rightarrow> db" where
  "Chat_create uid uname fname lname tid now ts d =
     (if \<exists>r \<in> set (chats d). user_id r = uid
      then d\<lparr>chats := update_where (\<lambda>r. user_id r = uid)
             (\<lambda>r. r\<lparr>username := uname, first_name := fname, last_name := lname, topic_id := Some tid,
                     is_archived := 0, status := Unread, unread_count := 1\<rparr>) (chats d)\<rparr>
      else d\<lparr>chats := chats d @ [new_chat uid uname fname lname tid now ts]\<rparr>)"

definition new_message_row :: "string \<Rightarrow> string \<Rightarrow> timestamp \<Rightarrow> chat \<Rightarrow> chat" where
  "new_message_row preview msg_type now r =
     r\<lparr>status := Unread,
       unread_count := unread_count r + 1,
       last_message_preview := Some (take 100 preview),
       last_message_type := Some msg_type,
       last_message_at := Some now,
       followup_stage := 0,
       followup_done := 0,
       snoozed_until := None\<rparr>"

definition Chat_new_message :: "int \<Rightarrow> string \<Rightarrow> string \<Rightarrow> timestamp \<Rightarrow> db \<Rightarrow> db" where
  "Chat_new_message uid preview msg_type now d =
     d\<lparr>chats := update_where (\<lambda>r. user_id r = uid) (new_message_row preview msg_type now) (chats d)\<rparr>"

definition mark_answered_row :: "timestamp \<Rightarrow> chat \<Rightarrow> chat" where
  "mark_answered_row now r =
     r\<lparr>status := Answered, unread_count := 0, last_reply_at := Some now, followup_stage := 0\<rparr>"

definition Chat_mark_answered :: "int \<Rightarrow> timestamp \<Rightarrow> db \<Rightarrow> db" where
  "Chat_mark_answered uid now d =
     d\<lparr>chats := update_where (\<lambda>r. user_id r = uid) (mark_answered_row now) (chats d)\<rparr>"

definition mark_read_row :: "chat \<Rightarrow> chat" where
  "mark_read_row r =
     r\<lparr>status := (if status r = Unread then Read else status r), unread_count := 0\<rparr>"

definition Chat_mark_read :: "int \<Rightarrow> db \<Rightarrow> db" where
  "Chat_mark_read uid d = d\<lparr>chats := update_where (\<lambda>r. user_id r = uid) mark_read_row (chats d)\<rparr>"

definition mark_unread_row :: "chat \<Rightarrow> chat" where
  "mark_unread_row r =
     r\<lparr>status := Unread, unread_count := (if unread_count r = 0 then 1 else unread_count r)\<rparr>"

definition Chat_mark_unread :: "int \<Rightarrow> db \<Rightarrow> db" where
  "Chat_mark_unread uid d = d\<lparr>chats := update_where (\<lambda>r. user_id r = uid) mark_unread_row (chats d)\<rparr>"

definition Chat_set_priority :: "int \<Rightarrow> priority \<Rightarrow> db \<Rightarrow> db" where
  "Chat_set_priority uid p d =
     d\<lparr>chats := update_where (\<lambda>r. user_id r = uid) (\<lambda>r. r\<lparr>priority := p\<rparr>) (chats d)\<rparr>"

definition archive_row :: "chat \<Rightarrow> chat" where
  "archive_row r = r\<lparr>is_archived := 1, status := Closed\<rparr>"

definition Chat_archive :: "int \<Rightarrow> db \<Rightarrow> db" where
  "Chat_archive uid d = d\<lparr>chats := update_where (\<lambda>r. user_id r = uid) archive_row (chats d)\<rparr>"

definition Chat_snooze :: "int \<Rightarrow> int \<Rightarrow> timestamp \<Rightarrow> db \<Rightarrow> db" where
  "Chat_snooze uid hours now d =
     (let until = now + timedelta_hours hours
      in d\<lparr>chats := update_where (\<lambda>r. user_id r = uid) (\<lambda>r. r\<lparr>snoozed_until := Some until\<rparr>) (chats d)\<rparr>)"

definition Chat_done_followup :: "int \<Rightarrow> db \<Rightarrow> db" where
  "Chat_done_followup uid d =
     d\<lparr>chats := update_where (\<lambda>r. user_id r = uid) (\<lambda>r. r\<lparr>followup_done := 1\<rparr>) (chats d)\<rparr>"

text \<open>
  \<open>job_archive\<close> writes the \<open>chats\<close> table directly: every active row whose last inbound
  message is older than the cutoff is archived (a NULL \<open>last_message_at\<close> never compares
  smaller).
\<close>

definition job_archive :: "timestamp \<Rightarrow> db \<Rightarrow> db" where
  "job_archive now d =
     (let cutoff = now - timedelta_days ARCHIVE_AFTER_DAYS;
          hit = map user_id (filter (\<lambda>r. is_archived r = 0 \<and>
                  (case last_message_at r of None \<Rightarrow> False | Some t \<Rightarrow> t < cutoff)) (chats d))
      in d\<lparr>chats := update_where (\<lambda>r. user_id r \<in> set hit) archive_row (chats d)\<rparr>)"

text \<open>
  \<open>Chat.get_unread\<close>. SQLite sorts NULL before every value, so in the descending order
  on \<open>last_message_at\<close> the rows without one come last. The order among rows with equal
  keys is not fixed by SQL; the model takes the one of a stable sort.
\<close>

definition priority_rank :: "priority \<Rightarrow> nat" where
  "priority_rank p = (case p of Urgent \<Rightarrow> 0 | Vip \<Rightarrow> 1 | Normal \<Rightarrow> 2)"

definition order_by_last_message_desc :: "chat list \<Rightarrow> chat list" where
  "order_by_last_message_desc rows =
     rev (filter (\<lambda>r. last_message_at r = None) rows
          @ sort_key (\<lambda>r. the (last_message_at r)) (filter (\<lambda>r. last_message_at r \<noteq> None) rows))"

definition Chat_get_unread :: "timestamp \<Rightarrow> db \<Rightarrow> chat list" where
  "Chat_get_unread now d =
     sort_key (\<lambda>r. priority_rank (priority r))
       (order_by_last_message_desc
         (filter (\<lambda>r. status r = Unread \<and> is_archived r = 0
                      \<and> (case snoozed_until r of None \<Rightarrow> True | Some s \<Rightarrow> s < now))
                 (chats d)))"

text \<open>
  \<open>Chat.get_followups_due\<close>. The source computes
  \<open>hours_since = (now - last_reply_at).total_seconds() / 3600\<close> in double precision and
  compares it with \<open>threshold * 3\<close>, \<open>threshold * 1.5\<close> and \<open>threshold\<close>. Both divisions
  are correctly rounded, hence monotone, and exact at the five bounds 12, 18, 24, 36 and 72
  hours, while one microsecond below a bound the quotient is smaller than the bound by
  about \<open>3e-10\<close>, far more than the spacing of doubles there. So every comparison of the
  source has the outcome of the same comparison on exact numbers, which is what the model
  computes.
\<close>

record followups =
  due :: "chat list"
  urgent :: "chat list"
  overdue :: "chat list"

definition total_seconds :: "int \<Rightarrow> real" where
  "total_seconds delta = real_of_int delta / 1000000"

definition hours_since :: "timestamp \<Rightarrow> chat \<Rightarrow> real" where
  "hours_since now c = total_seconds (now - the (last_reply_at c)) / 3600"

definition threshold :: "chat \<Rightarrow> int" where
  "threshold c = (if priority c = Vip then FOLLOWUP_HOURS_VIP else FOLLOWUP_HOURS_NORMAL)"

definition classify :: "timestamp \<Rightarrow> chat \<Rightarrow> followups \<Rightarrow> followups" where
  "classify now c results =
     (if hours_since now c \<ge> real_of_int (threshold c * 3) then results\<lparr>overdue := overdue results @ [c]\<rparr>
      else if hours_since now c \<ge> real_of_int (threshold c) * 1.5 then results\<lparr>urgent := urgent results @ [c]\<rparr>
      else if hours_since now c \<ge> real_of_int (threshold c) then results\<lparr>due := due results @ [c]\<rparr>
      else results)"

fun classify_all :: "timestamp \<Rightarrow> chat list \<Rightarrow> followups \<Rightarrow> followups" where
  "classify_all now [] results = results"
| "classify_all now (c # rows) results = classify_all now rows (classify now c results)"

definition followup_candidates :: "db \<Rightarrow> chat list" where
  "followup_candidates d =
     sort_key (\<lambda>r. the (last_reply_at r))
       (filter (\<lambda>r. status r = Answered \<and> is_archived r = 0 \<and> followup_done r = 0
                    \<and> last_reply_at r \<noteq> None) (chats d))"

definition Chat_get_followups_due :: "timestamp \<Rightarrow> db \<Rightarrow> followups" where
  "Chat_get_followups_due now d =
     classify_all now (followup_candidates d) \<lparr>due = [], urgent = [], overdue = []\<rparr>"

section \<open>Outbox (class Outbox)\<close>

definition Outbox_add :: "direction \<Rightarrow> int \<Rightarrow> int \<Rightarrow> int \<Rightarrow> int option \<Rightarrow> timestamp \<Rightarrow> timestamp \<Rightarrow> db \<Rightarrow> db" where
  "Outbox_add dir from_chat to_chat mid tid now ts d =
     d\<lparr>outbox := outbox d @
          [\<lparr>ob_id = outbox_seq d + 1, ob_direction = dir, ob_from_chat_id = from_chat,
            ob_to_chat_id = to_chat, ob_message_id = mid, ob_topic_id = tid,
            ob_retry_count = 0, ob_next_retry_at = now, ob_status = Pending,
            ob_error = None, ob_created_at = ts\<rparr>],
       outbox_seq := outbox_seq d + 1\<rparr>"

definition Outbox_get_pending :: "timestamp \<Rightarrow> db \<Rightarrow> outbox_row list" where
  "Outbox_get_pending now d =
     take 20 (sort_key ob_created_at
       (filter (\<lambda>r. ob_status r = Pending \<and> ob_next_retry_at r \<le> now) (outbox d)))"

definition Outbox_mark_sent :: "int \<Rightarrow> db \<Rightarrow> db" where
  "Outbox_mark_sent oid d =
     d\<lparr>outbox := update_where (\<lambda>r. ob_id r = oid) (\<lambda>r. r\<lparr>ob_status := Sent\<rparr>) (outbox d)\<rparr>"

definition delays :: "int list" where
  "delays = [5, 15, 45, 120, 300, 900, 3600]"

text \<open>The delay \<open>mark_failed\<close> computes for the new retry count.\<close>

definition backoff_delay :: "nat \<Rightarrow> int" where
  "backoff_delay retry_count = delays ! min (retry_count - 1) (length delays - 1)"

definition Outbox_mark_failed :: "int \<Rightarrow> string \<Rightarrow> timestamp \<Rightarrow> db \<Rightarrow> db" where
  "Outbox_mark_failed oid error now d =
     (let retry_count = (case find (\<lambda>r. ob_id r = oid) (outbox d) of
                           Some row \<Rightarrow> ob_retry_count row + 1 | None \<Rightarrow> 1);
          delay = backoff_delay retry_count;
          next_retry = now + timedelta_seconds delay
      in if retry_count \<ge> 10
         then d\<lparr>outbox := update_where (\<lambda>r. ob_id r = oid)
                 (\<lambda>r. r\<lparr>ob_status := Failed, ob_error := Some error, ob_retry_count := retry_count\<rparr>)
                 (outbox d)\<rparr>
         else d\<lparr>outbox := update_where (\<lambda>r. ob_id r = oid)
                 (\<lambda>r. r\<lparr>ob_retry_count := retry_count, ob_next_retry_at := next_retry,
                         ob_error := Some error\<rparr>)
                 (outbox d)\<rparr>)"

section \<open>Message forwarding\<close>

text \<open>
  The transport (\<open>bot.copy_message\<close>) is outside the program: a call either returns the
  id of the delivered message or raises.
\<close>

datatype transport_result = Delivered int | Raised string

text \<open>
  The attributes of the message object the relay functions read. \<open>chat_id\<close>,
  \<open>message_id\<close>, \<open>text\<close> and \<open>caption\<close> are attributes of \<open>telegram.Message\<close>;
  \<open>content_type\<close> is not, and reading an attribute an object lacks raises AttributeError.
  The model keeps both cases: \<open>No_attribute\<close> is a \<open>telegram.Message\<close>, \<open>Attribute v\<close>
  an object that carries the attribute with the value \<open>v\<close>.
\<close>

datatype attribute = No_attribute | Attribute "string option"

record msg =
  m_chat_id :: int
  m_message_id :: int
  m_text :: "string option"
  m_caption :: "string option"
  m_content_type :: attribute

text \<open>Python's \<open>a or b\<close> on optional strings: None and the empty string are false.\<close>

definition py_or :: "string option \<Rightarrow> string \<Rightarrow> string" where
  "py_or a b = (case a of None \<Rightarrow> b | Some s \<Rightarrow> if s = [] then b else s)"

definition py_str :: "string option \<Rightarrow> string" where
  "py_str a = (case a of None \<Rightarrow> ''None'' | Some s \<Rightarrow> s)"

text \<open>
  \<open>msg.text or msg.caption or f"[{msg.content_type}]"\<close>, for a message whose
  \<open>content_type\<close> is \<open>ct\<close>.
\<close>

definition preview_of :: "msg \<Rightarrow> string option \<Rightarrow> string" where
  "preview_of m ct = py_or (m_text m) (py_or (m_caption m) (''['' @ py_str ct @ '']''))"

definition log_msg :: "int \<Rightarrow> string \<Rightarrow> string \<Rightarrow> string \<Rightarrow> string \<Rightarrow> int option \<Rightarrow> timestamp \<Rightarrow> db \<Rightarrow> db" where
  "log_msg uid dir msg_type content file_id telegram_msg_id ts d =
     d\<lparr>messages := messages d @
          [\<lparr>ml_id = messages_seq d + 1, ml_user_id = uid, ml_direction = dir,
            ml_msg_type = msg_type, ml_content = (if content \<noteq> [] then take 500 content else []),
            ml_file_id = file_id, ml_telegram_msg_id = telegram_msg_id, ml_created_at = ts\<rparr>],
       messages_seq := messages_seq d + 1\<rparr>"

text \<open>
  \<open>save_message_mapping\<close>: the insert, then the pruning DELETE whose subquery selects the
  100 largest ids of the user.
\<close>

definition keep_ids :: "int \<Rightarrow> sent_message list \<Rightarrow> int list" where
  "keep_ids uid rows = take 100 (rev (sort (map sm_id (filter (\<lambda>r. sm_user_id r = uid) rows))))"

definition save_message_mapping :: "int \<Rightarrow> int \<Rightarrow> int \<Rightarrow> timestamp \<Rightarrow> db \<Rightarrow> db" where
  "save_message_mapping uid topic_msg_id user_msg_id ts d =
     (let inserted = sent_messages d @
            [\<lparr>sm_id = sent_messages_seq d + 1, sm_user_id = uid, sm_topic_msg_id = topic_msg_id,
              sm_user_msg_id = user_msg_id, sm_created_at = ts\<rparr>]
      in d\<lparr>sent_messages :=
              filter (\<lambda>r. \<not> (sm_user_id r = uid \<and> sm_id r \<notin> set (keep_ids uid inserted))) inserted,
            sent_messages_seq := sent_messages_seq d + 1\<rparr>)"

definition get_user_msg_id :: "int \<Rightarrow> int \<Rightarrow> db \<Rightarrow> int option" where
  "get_user_msg_id uid topic_msg_id d =
     (case find (\<lambda>r. sm_user_id r = uid \<and> sm_topic_msg_id r = topic_msg_id) (sent_messages d) of
        Some row \<Rightarrow> Some (sm_user_msg_id row) | None \<Rightarrow> None)"

text \<open>
  \<open>forward_to_topic\<close> and \<open>forward_to_user\<close>. The first argument is the outcome of the
  \<open>copy_message\<close> call; the result pairs the returned value with the database afterwards.
  Everything after \<open>copy_message\<close> sits in the same \<open>try\<close>, so an exception there ends in
  the \<open>except\<close> branch as well. Before \<open>log_msg\<close> is called its argument
  \<open>msg.content_type or "unknown"\<close> is evaluated: on a message without the attribute this
  raises (if not already the preview did), after the delivery and, in \<open>forward_to_user\<close>,
  after \<open>save_message_mapping\<close> has committed, but before anything is logged or the
  conversation is touched.
\<close>

definition forward_to_topic :: "transport_result \<Rightarrow> msg \<Rightarrow> int \<Rightarrow> int \<Rightarrow> timestamp \<Rightarrow> timestamp \<Rightarrow> db \<Rightarrow> bool \<times> db" where
  "forward_to_topic copy_message m tid uid now ts d =
     (case copy_message of
        Delivered sent_id \<Rightarrow>
          (case m_content_type m of
             Attribute ct \<Rightarrow>
               (let preview = preview_of m ct;
                    d1 = log_msg uid ''in'' (py_or ct ''unknown'') (take 100 preview) []
                           (Some sent_id) ts d;
                    d2 = Chat_new_message uid (take 100 preview) (py_or ct ''unknown'') now d1
                in (True, d2))
           | No_attribute \<Rightarrow>
               (False, Outbox_add To_topic (m_chat_id m) SUPPORT_GROUP_ID (m_message_id m)
                         (Some tid) now ts d))
      | Raised e \<Rightarrow>
          (False, Outbox_add To_topic (m_chat_id m) SUPPORT_GROUP_ID (m_message_id m) (Some tid) now ts d))"

definition forward_to_user :: "transport_result \<Rightarrow> msg \<Rightarrow> int \<Rightarrow> int \<Rightarrow> timestamp \<Rightarrow> timestamp \<Rightarrow> db \<Rightarrow> int option \<times> db" where
  "forward_to_user copy_message m uid tid now ts d =
     (case copy_message of
        Delivered sent_id \<Rightarrow>
          (let d1 = save_message_mapping uid (m_message_id m) sent_id ts d
           in case m_content_type m of
                Attribute ct \<Rightarrow>
                  (let preview = preview_of m ct;
                       d2 = log_msg uid ''out'' (py_or ct ''unknown'') (take 100 preview) []
                              (Some sent_id) ts d1;
                       d3 = Chat_mark_answered uid now d2
                   in (Some sent_id, d3))
              | No_attribute \<Rightarrow>
                  (None, Outbox_add To_user (m_chat_id m) uid (m_message_id m) (Some tid) now ts d1))
      | Raised e \<Rightarrow>
          (None, Outbox_add To_user (m_chat_id m) uid (m_message_id m) (Some tid) now ts d))"

section \<open>The outbox drainer (job_process_outbox)\<close>

text \<open>
  One tick. \<open>copy_message item\<close> is the outcome of the \<open>copy_message\<close> call the loop makes for
  \<open>item\<close> (with the thread id for a \<open>to_topic\<close> item, without for a \<open>to_user\<close> item), and
  \<open>clock item\<close> is the time \<open>mark_failed\<close> reads when that call has raised.
\<close>

fun process_items :: "(outbox_row \<Rightarrow> transport_result) \<Rightarrow> (outbox_row \<Rightarrow> timestamp) \<Rightarrow> outbox_row list \<Rightarrow> db \<Rightarrow> db" where
  "process_items copy_message clock [] d = d"
| "process_items copy_message clock (item # pending) d =
     process_items copy_message clock pending
       (case copy_message item of
          Delivered sent_id \<Rightarrow> Outbox_mark_sent (ob_id item) d
        | Raised e \<Rightarrow> Outbox_mark_failed (ob_id item) e (clock item) d)"

definition job_process_outbox :: "(outbox_row \<Rightarrow> transport_result) \<Rightarrow> (outbox_row \<Rightarrow> timestamp) \<Rightarrow> timestamp \<Rightarrow> db \<Rightarrow> db" where
  "job_process_outbox copy_message clock now d = process_items copy_message clock (Outbox_get_pending now d) d"

section \<open>Histories\<close>

text \<open>
  Every statement of the program that writes the \<open>chats\<close> table, as one operation; a
  reachable table is the result of a list of them on the empty database.
\<close>

datatype chat_op =
    Op_create int string string string int timestamp timestamp
  | Op_new_message int string string timestamp
  | Op_mark_answered int timestamp
  | Op_mark_read int
  | Op_mark_unread int
  | Op_set_priority int priority
  | Op_archive int
  | Op_snooze int int timestamp
  | Op_done_followup int
  | Op_job_archive timestamp

fun apply_chat_op :: "chat_op \<Rightarrow> db \<Rightarrow> db" where
  "apply_chat_op (Op_create uid uname fname lname tid now ts) d = Chat_create uid uname fname lname tid now ts d"
| "apply_chat_op (Op_new_message uid preview msg_type now) d = Chat_new_message uid preview msg_type now d"
| "apply_chat_op (Op_mark_answered uid now) d = Chat_mark_answered uid now d"
| "apply_chat_op (Op_mark_read uid) d = Chat_mark_read uid d"
| "apply_chat_op (Op_mark_unread uid) d = Chat_mark_unread uid d"
| "apply_chat_op (Op_set_priority uid p) d = Chat_set_priority uid p d"
| "apply_chat_op (Op_archive uid) d = Chat_archive uid d"
| "apply_chat_op (Op_snooze uid hours now) d = Chat_snooze uid hours now d"
| "apply_chat_op (Op_done_followup uid) d = Chat_done_followup uid d"
| "apply_chat_op (Op_job_archive now) d = job_archive now d"

fun run_chat_ops :: "chat_op list \<Rightarrow> db \<Rightarrow> db" where
  "run_chat_ops [] d = d"
| "run_chat_ops (x # ops) d = run_chat_ops ops (apply_chat_op x d)"

text \<open>
  The events of one conversation: an inbound message, a successful outbound reply, a read.
\<close>

datatype conv_event = Inbound string string timestamp | Reply timestamp | Seen

fun apply_event :: "int \<Rightarrow> conv_event \<Rightarrow> db \<Rightarrow> db" where
  "apply_event uid (Inbound preview msg_type now) d = Chat_new_message uid preview msg_type now d"
| "apply_event uid (Reply now) d = Chat_mark_answered uid now d"
| "apply_event uid Seen d = Chat_mark_read uid d"

fun run_events :: "int \<Rightarrow> conv_event list \<Rightarrow> db \<Rightarrow> db" where
  "run_events uid [] d = d"
| "run_events uid (e # es) d = run_events uid es (apply_event uid e d)"

text \<open>
  The specification's counter, in its own words: the number of inbound messages since the
  last transition to \<open>read\<close> or \<open>answered\<close>. It follows the status along the events; a read
  of a conversation that is not unread is no transition and leaves the counter alone. It
  starts from the status \<open>s\<close> and the number \<open>n\<close> of inbound messages counted before the
  events.
\<close>

fun spec_step :: "status \<times> int \<Rightarrow> conv_event \<Rightarrow> status \<times> int" where
  "spec_step (s, n) (Inbound preview msg_type now) = (Unread, n + 1)"
| "spec_step (s, n) (Reply now) = (Answered, 0)"
| "spec_step (s, n) Seen = (if s = Unread then (Read, 0) else (s, n))"

definition spec_inbound_since_transition :: "status \<Rightarrow> int \<Rightarrow> conv_event list \<Rightarrow> int" where
  "spec_inbound_since_transition s n es = snd (foldl spec_step (s, n) es)"

text \<open>Repeated failures of one entry, at the given clock readings.\<close>

fun fail_repeatedly :: "int \<Rightarrow> string \<Rightarrow> timestamp list \<Rightarrow> db \<Rightarrow> db" where
  "fail_repeatedly oid error [] d = d"
| "fail_repeatedly oid error (now # clocks) d =
     fail_repeatedly oid error clocks (Outbox_mark_failed oid error now d)"

text \<open>A list of mapping inserts (user, topic message, user message, time of the insert).\<close>

fun run_inserts :: "(int \<times> int \<times> int \<times> timestamp) list \<Rightarrow> db \<Rightarrow> db" where
  "run_inserts [] d = d"
| "run_inserts ((uid, t, m, ts) # ins) d = run_inserts ins (save_message_mapping uid t m ts d)"

text \<open>Any number of later ticks, each with its own transport outcomes and clock.\<close>

fun run_ticks :: "((outbox_row \<Rightarrow> transport_result) \<times> (outbox_row \<Rightarrow> timestamp) \<times> timestamp) list \<Rightarrow> db \<Rightarrow> db" where
  "run_ticks [] d = d"
| "run_ticks ((copy_message, clock, now) # ticks) d =
     run_ticks ticks (job_process_outbox copy_message clock now d)"

section \<open>Invariants of the tables\<close>

text \<open>
  \<open>user_id\<close> is the primary key of \<open>chats\<close>, and a conversation that is read has no
  unread message.
\<close>

definition chats_inv :: "db \<Rightarrow> bool" where
  "chats_inv d \<longleftrightarrow> distinct (map user_id (chats d))
     \<and> (\<forall>r \<in> set (chats d). status r = Read \<longrightarrow> unread_count r = 0)"

text \<open>
  \<open>outbox.id\<close> is an AUTOINCREMENT primary key: the ids are distinct and none exceeds the
  last one handed out.
\<close>

definition outbox_wf :: "db \<Rightarrow> bool" where
  "outbox_wf d \<longleftrightarrow> distinct (map ob_id (outbox d)) \<and> (\<forall>r \<in> set (outbox d). ob_id r \<le> outbox_seq d)"

text \<open>The outbox row with a given id, as \<open>mark_failed\<close> selects it.\<close>

definition outbox_row_of :: "int \<Rightarrow> db \<Rightarrow> outbox_row option" where
  "outbox_row_of oid d = find (\<lambda>r. ob_id r = oid) (outbox d)"

text \<open>What the two UPDATE statements of \<open>mark_failed\<close> make of the row they rewrite.\<close>

definition failed_row :: "string \<Rightarrow> timestamp \<Rightarrow> outbox_row \<Rightarrow> outbox_row" where
  "failed_row error now r =
     (if ob_retry_count r + 1 \<ge> 10
      then r\<lparr>ob_status := Failed, ob_error := Some error, ob_retry_count := ob_retry_count r + 1\<rparr>
      else r\<lparr>ob_retry_count := ob_retry_count r + 1,
             ob_next_retry_at := now + timedelta_seconds (backoff_delay (ob_retry_count r + 1)),
             ob_error := Some error\<rparr>)"

text \<open>
  The mapping log: the rows of one user, a row as the tuple that was inserted, the inserts
  of one user, and the last \<open>n\<close> elements of a list. \<open>sent_messages.id\<close> is an
  AUTOINCREMENT key and rows are only ever appended, so the ids ascend strictly in rowid
  order.
\<close>

definition last_n :: "nat \<Rightarrow> 'a list \<Rightarrow> 'a list" where
  "last_n n xs = drop (length xs - n) xs"

definition user_rows :: "int \<Rightarrow> db \<Rightarrow> sent_message list" where
  "user_rows u d = filter (\<lambda>r. sm_user_id r = u) (sent_messages d)"

definition mapping_of :: "sent_message \<Rightarrow> int \<times> int \<times> int \<times> timestamp" where
  "mapping_of r = (sm_user_id r, sm_topic_msg_id r, sm_user_msg_id r, sm_created_at r)"

definition user_inserts :: "int \<Rightarrow> (int \<times> int \<times> int \<times> timestamp) list \<Rightarrow> (int \<times> int \<times> int \<times> timestamp) list" where
  "user_inserts u ins = filter (\<lambda>i. fst i = u) ins"

definition sm_wf :: "db \<Rightarrow> bool" where
  "sm_wf d \<longleftrightarrow> sorted_wrt (<) (map sm_id (sent_messages d))
     \<and> (\<forall>r \<in> set (sent_messages d). sm_id r \<le> sent_messages_seq d)
     \<and> (\<forall>u. length (user_rows u d) \<le> 100)"

section \<open>Example states\<close>

text \<open>
  A conversation of user 7 in thread 11: created, one inbound message, answered at time 0,
  and the follow-up skipped one hour later (\<open>cmd_skip\<close> and the skip button call
  \<open>Chat.snooze\<close> with 72 hours).
\<close>

definition demo_db :: db where
  "demo_db = Chat_create 7 ''ann'' ''Ann'' [] 11 0 0 empty_db"

definition demo_msg :: msg where
  "demo_msg = \<lparr>m_chat_id = 7, m_message_id = 42, m_text = Some ''hello'', m_caption = None,
     m_content_type = No_attribute\<rparr>"

definition demo_admin_msg :: msg where
  "demo_admin_msg = \<lparr>m_chat_id = SUPPORT_GROUP_ID, m_message_id = 43, m_text = Some ''hi'',
     m_caption = None, m_content_type = No_attribute\<rparr>"

definition answered_db :: db where
  "answered_db = Chat_mark_answered 7 0 (Chat_new_message 7 ''hello'' ''text'' 0 demo_db)"

definition skipped_db :: db where
  "skipped_db = Chat_snooze 7 72 3600000000 answered_db"

definition answered_chat :: chat where
  "answered_chat =
     \<lparr>user_id = 7, username = ''ann'', first_name = ''Ann'', last_name = [], topic_id = Some 11,
      status = Answered, priority = Normal, unread_count = 0,
      last_message_preview = Some ''hello'', last_message_type = Some ''text'',
      last_message_at = Some 0, last_reply_at = Some 0, created_at = 0,
      is_archived = 0, snoozed_until = None, followup_stage = 0, followup_done = 0\<rparr>"

definition demo_events :: "conv_event list" where
  "demo_events = [Inbound ''a'' ''text'' 10, Inbound ''b'' ''text'' 20, Seen, Inbound ''c'' ''photo'' 30]"

definition demo_ops :: "chat_op list" where
  "demo_ops = [Op_create 7 ''ann'' ''Ann'' [] 11 0 0, Op_new_message 7 ''hello'' ''text'' 0, Op_mark_read 7]"

text \<open>
  A read conversation, a relay of \<open>demo_msg\<close> to its thread that fails, and a drainer tick
  30 seconds later at which the transport delivers.
\<close>

definition read_db :: db where
  "read_db = run_chat_ops demo_ops empty_db"

definition queued_db :: db where
  "queued_db = snd (forward_to_topic (Raised ''timed out'') demo_msg 11 7 5000000 5000000 read_db)"

definition queued_item :: outbox_row where
  "queued_item =
     \<lparr>ob_id = 1, ob_direction = To_topic, ob_from_chat_id = 7, ob_to_chat_id = SUPPORT_GROUP_ID,
      ob_message_id = 42, ob_topic_id = Some 11, ob_retry_count = 0, ob_next_retry_at = 5000000,
      ob_status = Pending, ob_error = None, ob_created_at = 5000000\<rparr>"

definition always_delivers :: "outbox_row \<Rightarrow> transport_result" where
  "always_delivers item = Delivered 500"

definition demo_clock :: "outbox_row \<Rightarrow> timestamp" where
  "demo_clock item = 35000000"

definition drained_db :: db where
  "drained_db = job_process_outbox always_delivers demo_clock 35000000 queued_db"

text \<open>
  The other direction: an unread conversation, a reply from the support group whose relay
  to the user fails, and the tick at which the transport delivers.
\<close>

definition unread_db :: db where
  "unread_db = Chat_new_message 7 ''hello'' ''text'' 0 demo_db"

definition queued_user_db :: db where
  "queued_user_db = snd (forward_to_user (Raised ''timed out'') demo_admin_msg 7 11 5000000 5000000 unread_db)"

definition queued_user_item :: outbox_row where
  "queued_user_item =
     \<lparr>ob_id = 1, ob_direction = To_user, ob_from_chat_id = SUPPORT_GROUP_ID, ob_to_chat_id = 7,
      ob_message_id = 43, ob_topic_id = Some 11, ob_retry_count = 0, ob_next_retry_at = 5000000,
      ob_status = Pending, ob_error = None, ob_created_at = 5000000\<rparr>"

definition drained_user_db :: db where
  "drained_user_db = job_process_outbox always_delivers demo_clock 35000000 queued_user_db"

definition demo_fail_clocks :: "timestamp list" where
  "demo_fail_clocks = [1, 2, 3, 4, 5, 6, 7, 8, 9]"

text \<open>
  101 mappings of user 1; the last one reuses the topic message id of the first.
\<close>

definition demo_inserts :: "(int \<times> int \<times> int \<times> timestamp) list" where
  "demo_inserts = map (\<lambda>k. (1, k, k + 1000, 0)) [1..100] @ [(1, 1, 999, 0)]"

section \<open>Generic facts about row updates\<close>

lemma find_update_where_key:
  assumes "\<And>r. key (f r) = key r"
  shows "find (\<lambda>r. key r = k) (update_where (\<lambda>r. key r = k) f rows)
         = map_option f (find (\<lambda>r. key r = k) rows)"
  using assms by (induction rows) (auto simp: update_where_def)

lemma find_update_where_other:
  assumes "\<And>r. key (f r) = key r" and "k \<noteq> k'"
  shows "find (\<lambda>r. key r = k') (update_where (\<lambda>r. key r = k) f rows)
         = find (\<lambda>r. key r = k') rows"
  using assms by (induction rows) (auto simp: update_where_def)

lemma length_update_where [simp]: "length (update_where p f rows) = length rows"
  by (simp add: update_where_def)

lemma Chat_get_new_message:
  "Chat_get uid (Chat_new_message uid preview msg_type now d)
   = map_option (new_message_row preview msg_type now) (Chat_get uid d)"
  by (simp add: Chat_get_def Chat_new_message_def find_update_where_key new_message_row_def)

lemma Chat_get_mark_answered:
  "Chat_get uid (Chat_mark_answered uid now d) = map_option (mark_answered_row now) (Chat_get uid d)"
  by (simp add: Chat_get_def Chat_mark_answered_def find_update_where_key mark_answered_row_def)

lemma Chat_get_mark_read:
  "Chat_get uid (Chat_mark_read uid d) = map_option mark_read_row (Chat_get uid d)"
  by (simp add: Chat_get_def Chat_mark_read_def find_update_where_key mark_read_row_def)

lemma Chat_get_archive:
  "Chat_get uid (Chat_archive uid d) = map_option archive_row (Chat_get uid d)"
  by (simp add: Chat_get_def Chat_archive_def find_update_where_key archive_row_def)

lemma Chat_get_archive_other:
  "uid \<noteq> uid' \<Longrightarrow> Chat_get uid' (Chat_archive uid d) = Chat_get uid' d"
  by (simp add: Chat_get_def Chat_archive_def find_update_where_other archive_row_def)

lemma Chat_get_demo_db: "Chat_get 7 demo_db = Some (new_chat 7 ''ann'' ''Ann'' [] 11 0 0)"
  by (simp add: demo_db_def Chat_get_def Chat_create_def empty_db_def new_chat_def)

lemma chats_answered_db: "chats answered_db = [answered_chat]"
  by (simp add: answered_db_def demo_db_def answered_chat_def Chat_mark_answered_def
      Chat_new_message_def Chat_create_def empty_db_def update_where_def new_chat_def
      new_message_row_def mark_answered_row_def)

lemma chats_skipped_db: "chats skipped_db = [answered_chat\<lparr>snoozed_until := Some 262800000000\<rparr>]"
  by (simp add: skipped_db_def chats_answered_db Chat_snooze_def update_where_def
      timedelta_hours_def answered_chat_def)

section \<open>Claims about single transitions\<close>



text \<open>
  C10. \<open>Chat.archive\<close> sets \<open>is_archived\<close> to 1 and the status to closed and changes no
  other field of the conversation's row: \<open>unread_count\<close>, \<open>priority\<close>, \<open>snoozed_until\<close>,
  \<open>followup_stage\<close>, \<open>followup_done\<close> and all timestamps are preserved. In particular a
  conversation archived while unread keeps its positive \<open>unread_count\<close>.
\<close>

theorem archive_frame:
  assumes "Chat_get uid d = Some c"
  shows "Chat_get uid (Chat_archive uid d) = Some (c\<lparr>is_archived := 1, status := Closed\<rparr>)
       \<and> (\<forall>c'. Chat_get uid (Chat_archive uid d) = Some c' \<longrightarrow>
             is_archived c' = 1 \<and> status c' = Closed
           \<and> unread_count c' = unread_count c \<and> priority c' = priority c
           \<and> snoozed_until c' = snoozed_until c
           \<and> followup_stage c' = followup_stage c \<and> followup_done c' = followup_done c
           \<and> last_message_at c' = last_message_at c \<and> last_reply_at c' = last_reply_at c
           \<and> created_at c' = created_at c
           \<and> user_id c' = user_id c \<and> username c' = username c
           \<and> first_name c' = first_name c \<and> last_name c' = last_name c
           \<and> topic_id c' = topic_id c
           \<and> last_message_preview c' = last_message_preview c
           \<and> last_message_type c' = last_message_type c)
       \<and> (status c = Unread \<and> 0 < unread_count c \<longrightarrow>
            (\<exists>c'. Chat_get uid (Chat_archive uid d) = Some c' \<and> 0 < unread_count c'))"
  using assms by (simp add: Chat_get_archive archive_row_def)

theorem archive_frame_witness:
  "Chat_get 7 (Chat_new_message 7 ''hello'' ''text'' 2000 demo_db)
     = Some (new_message_row ''hello'' ''text'' 2000 (new_chat 7 ''ann'' ''Ann'' [] 11 0 0))
   \<and> Chat_get 7 (Chat_archive 7 (Chat_new_message 7 ''hello'' ''text'' 2000 demo_db))
     = Some (new_message_row ''hello'' ''text'' 2000 (new_chat 7 ''ann'' ''Ann'' [] 11 0 0)
              \<lparr>is_archived := 1, status := Closed\<rparr>)
   \<and> unread_count (new_message_row ''hello'' ''text'' 2000 (new_chat 7 ''ann'' ''Ann'' [] 11 0 0)
              \<lparr>is_archived := 1, status := Closed\<rparr>) = 1"
  using archive_frame [of 7 "Chat_new_message 7 ''hello'' ''text'' 2000 demo_db"
      "new_message_row ''hello'' ''text'' 2000 (new_chat 7 ''ann'' ''Ann'' [] 11 0 0)"]
  by (simp add: Chat_get_new_message Chat_get_demo_db new_message_row_def new_chat_def)

section \<open>Failed immediate relay\<close>

text \<open>
  C5. When the transport's \<open>copy_message\<close> raises during an immediate relay,
  \<open>forward_to_topic\<close> and \<open>forward_to_user\<close> leave the conversation store unchanged, record
  no message mapping (and no log entry), add exactly one pending outbox entry with the
  direction \<open>to_topic\<close>, respectively \<open>to_user\<close>, and return False, respectively None.
\<close>

theorem failed_relay_enqueues:
  "fst (forward_to_topic (Raised e) m tid uid now ts d) = False
   \<and> chats (snd (forward_to_topic (Raised e) m tid uid now ts d)) = chats d
   \<and> sent_messages (snd (forward_to_topic (Raised e) m tid uid now ts d)) = sent_messages d
   \<and> messages (snd (forward_to_topic (Raised e) m tid uid now ts d)) = messages d
   \<and> length (outbox (snd (forward_to_topic (Raised e) m tid uid now ts d))) = length (outbox d) + 1
   \<and> butlast (outbox (snd (forward_to_topic (Raised e) m tid uid now ts d))) = outbox d
   \<and> ob_status (last (outbox (snd (forward_to_topic (Raised e) m tid uid now ts d)))) = Pending
   \<and> ob_direction (last (outbox (snd (forward_to_topic (Raised e) m tid uid now ts d)))) = To_topic
   \<and> ob_message_id (last (outbox (snd (forward_to_topic (Raised e) m tid uid now ts d)))) = m_message_id m
   \<and> fst (forward_to_user (Raised e) m uid tid now ts d) = None
   \<and> chats (snd (forward_to_user (Raised e) m uid tid now ts d)) = chats d
   \<and> sent_messages (snd (forward_to_user (Raised e) m uid tid now ts d)) = sent_messages d
   \<and> messages (snd (forward_to_user (Raised e) m uid tid now ts d)) = messages d
   \<and> length (outbox (snd (forward_to_user (Raised e) m uid tid now ts d))) = length (outbox d) + 1
   \<and> butlast (outbox (snd (forward_to_user (Raised e) m uid tid now ts d))) = outbox d
   \<and> ob_status (last (outbox (snd (forward_to_user (Raised e) m uid tid now ts d)))) = Pending
   \<and> ob_direction (last (outbox (snd (forward_to_user (Raised e) m uid tid now ts d)))) = To_user
   \<and> ob_message_id (last (outbox (snd (forward_to_user (Raised e) m uid tid now ts d)))) = m_message_id m"
  by (simp add: forward_to_topic_def forward_to_user_def Outbox_add_def)

theorem failed_relay_enqueues_witness:
  "fst (forward_to_topic (Raised ''timed out'') demo_msg 11 7 5000 5000 demo_db) = False
   \<and> chats (snd (forward_to_topic (Raised ''timed out'') demo_msg 11 7 5000 5000 demo_db)) = chats demo_db
   \<and> outbox (snd (forward_to_topic (Raised ''timed out'') demo_msg 11 7 5000 5000 demo_db))
       = [\<lparr>ob_id = 1, ob_direction = To_topic, ob_from_chat_id = 7, ob_to_chat_id = SUPPORT_GROUP_ID,
           ob_message_id = 42, ob_topic_id = Some 11, ob_retry_count = 0, ob_next_retry_at = 5000,
           ob_status = Pending, ob_error = None, ob_created_at = 5000\<rparr>]
   \<and> fst (forward_to_user (Raised ''timed out'') demo_msg 7 11 5000 5000 demo_db) = None
   \<and> chats (snd (forward_to_user (Raised ''timed out'') demo_msg 7 11 5000 5000 demo_db)) = chats demo_db
   \<and> ob_direction (last (outbox (snd (forward_to_user (Raised ''timed out'') demo_msg 7 11 5000 5000 demo_db))))
       = To_user"
  using failed_relay_enqueues [of "''timed out''" demo_msg 11 7 5000 5000 demo_db]
  by (simp add: forward_to_topic_def Outbox_add_def demo_db_def demo_msg_def Chat_create_def empty_db_def)

text \<open>
  A delivery does not help a \<open>telegram.Message\<close>: the relay ends in the same \<open>except\<close>
  branch, in \<open>forward_to_user\<close> with the mapping already saved.
\<close>

lemma delivered_relay_without_attribute:
  assumes "m_content_type m = No_attribute"
  shows "forward_to_topic (Delivered sent_id) m tid uid now ts d
         = (False, Outbox_add To_topic (m_chat_id m) SUPPORT_GROUP_ID (m_message_id m) (Some tid) now ts d)"
    and "forward_to_user (Delivered sent_id) m uid tid now ts d
         = (None, Outbox_add To_user (m_chat_id m) uid (m_message_id m) (Some tid) now ts
                    (save_message_mapping uid (m_message_id m) sent_id ts d))"
  using assms by (simp_all add: forward_to_topic_def forward_to_user_def Let_def)

section \<open>Follow-up buckets\<close>

lemma set_overdue_classify_all:
  "set (overdue (classify_all now rows R)) =
     set (overdue R) \<union> {c \<in> set rows. hours_since now c \<ge> real_of_int (threshold c * 3)}"
  by (induction rows arbitrary: R) (auto simp: classify_def)

lemma set_urgent_classify_all:
  "set (urgent (classify_all now rows R)) =
     set (urgent R) \<union> {c \<in> set rows. \<not> hours_since now c \<ge> real_of_int (threshold c * 3)
                       \<and> hours_since now c \<ge> real_of_int (threshold c) * 1.5}"
  by (induction rows arbitrary: R) (auto simp: classify_def)

lemma set_due_classify_all:
  "set (due (classify_all now rows R)) =
     set (due R) \<union> {c \<in> set rows. \<not> hours_since now c \<ge> real_of_int (threshold c * 3)
                       \<and> \<not> hours_since now c \<ge> real_of_int (threshold c) * 1.5
                       \<and> hours_since now c \<ge> real_of_int (threshold c)}"
  by (induction rows arbitrary: R) (auto simp: classify_def)

lemma set_followup_candidates:
  "set (followup_candidates d) =
     {c \<in> set (chats d). status c = Answered \<and> is_archived c = 0 \<and> followup_done c = 0
        \<and> last_reply_at c \<noteq> None}"
  by (auto simp: followup_candidates_def)

lemma threshold_cases: "threshold c = (if priority c = Vip then 12 else 24)"
  by (simp add: threshold_def FOLLOWUP_HOURS_VIP_def FOLLOWUP_HOURS_NORMAL_def)

text \<open>
  C4. A conversation with status answered, \<open>is_archived = 0\<close>, \<open>followup_done = 0\<close> and a
  \<open>last_reply_at\<close> is placed by \<open>Chat.get_followups_due\<close> according to the hours \<open>h\<close>
  elapsed since \<open>last_reply_at\<close> and the threshold \<open>T\<close> (12 hours for priority vip, 24
  hours otherwise): in \<open>overdue\<close> iff \<open>h \<ge> 3T\<close>, otherwise in \<open>urgent\<close> iff \<open>h \<ge> 1.5T\<close>,
  otherwise in \<open>due\<close> iff \<open>h \<ge> T\<close>, otherwise in no bucket; and no conversation is ever in
  two buckets.
\<close>

theorem followup_buckets:
  assumes "c \<in> set (chats d)"
    and "status c = Answered" and "is_archived c = 0" and "followup_done c = 0"
    and "last_reply_at c = Some t"
    and "h = real_of_int (now - t) / 1000000 / 3600"
    and "T = (if priority c = Vip then 12 else 24)"
  shows "(c \<in> set (overdue (Chat_get_followups_due now d)) \<longleftrightarrow> h \<ge> 3 * T)
       \<and> (c \<in> set (urgent (Chat_get_followups_due now d)) \<longleftrightarrow> \<not> h \<ge> 3 * T \<and> h \<ge> 1.5 * T)
       \<and> (c \<in> set (due (Chat_get_followups_due now d)) \<longleftrightarrow> \<not> h \<ge> 1.5 * T \<and> h \<ge> T)
       \<and> set (overdue (Chat_get_followups_due now d)) \<inter> set (urgent (Chat_get_followups_due now d)) = {}
       \<and> set (overdue (Chat_get_followups_due now d)) \<inter> set (due (Chat_get_followups_due now d)) = {}
       \<and> set (urgent (Chat_get_followups_due now d)) \<inter> set (due (Chat_get_followups_due now d)) = {}"
proof -
  have cand: "c \<in> set (followup_candidates d)"
    using assms(1-5) by (simp add: set_followup_candidates)
  have hs: "hours_since now c = h"
    using assms(5,6) by (simp add: hours_since_def total_seconds_def)
  have th: "real_of_int (threshold c) = T"
    using assms(7) by (simp add: threshold_cases)
  have Tpos: "0 < T"
    using assms(7) by simp
  have b1: "c \<in> set (overdue (Chat_get_followups_due now d)) \<longleftrightarrow> h \<ge> 3 * T"
    using cand hs th by (simp add: Chat_get_followups_due_def set_overdue_classify_all mult.commute)
  have b2: "c \<in> set (urgent (Chat_get_followups_due now d)) \<longleftrightarrow> \<not> h \<ge> 3 * T \<and> h \<ge> 1.5 * T"
    using cand hs th by (simp add: Chat_get_followups_due_def set_urgent_classify_all mult.commute)
  have b3: "c \<in> set (due (Chat_get_followups_due now d)) \<longleftrightarrow> \<not> h \<ge> 1.5 * T \<and> h \<ge> T"
    using cand hs th Tpos
    by (auto simp: Chat_get_followups_due_def set_due_classify_all mult.commute)
  have d1: "set (overdue (Chat_get_followups_due now d)) \<inter> set (urgent (Chat_get_followups_due now d)) = {}"
    by (auto simp: Chat_get_followups_due_def set_overdue_classify_all set_urgent_classify_all)
  have d2: "set (overdue (Chat_get_followups_due now d)) \<inter> set (due (Chat_get_followups_due now d)) = {}"
    by (auto simp: Chat_get_followups_due_def set_overdue_classify_all set_due_classify_all)
  have d3: "set (urgent (Chat_get_followups_due now d)) \<inter> set (due (Chat_get_followups_due now d)) = {}"
    by (auto simp: Chat_get_followups_due_def set_urgent_classify_all set_due_classify_all)
  show ?thesis
    using b1 b2 b3 d1 d2 d3 by blast
qed

text \<open>The specification's example: 30 hours after the reply, normal priority.\<close>

theorem followup_buckets_witness:
  "answered_chat \<in> set (chats answered_db)
   \<and> status answered_chat = Answered \<and> is_archived answered_chat = 0 \<and> followup_done answered_chat = 0
   \<and> last_reply_at answered_chat = Some 0
   \<and> answered_chat \<notin> set (overdue (Chat_get_followups_due 108000000000 answered_db))
   \<and> answered_chat \<notin> set (urgent (Chat_get_followups_due 108000000000 answered_db))
   \<and> answered_chat \<in> set (due (Chat_get_followups_due 108000000000 answered_db))"
  using followup_buckets [of answered_chat answered_db 0 30 108000000000 24]
  by (simp add: chats_answered_db) (simp add: answered_chat_def)

section \<open>Snoozed conversations\<close>

lemma set_order_by_last_message_desc [simp]: "set (order_by_last_message_desc rows) = set rows"
  by (auto simp: order_by_last_message_desc_def)

lemma get_unread_excludes_snoozed:
  assumes "c \<in> set (Chat_get_unread now d)" and "snoozed_until c = Some s"
  shows "s < now"
  using assms by (auto simp: Chat_get_unread_def)

text \<open>
  C3. A conversation whose \<open>snoozed_until\<close> lies in the future is excluded from the due
  views. \<open>Chat.get_unread\<close> does exclude it (\<open>get_unread_excludes_snoozed\<close>), but
  \<open>Chat.get_followups_due\<close> never looks at \<open>snoozed_until\<close>: 25 hours after the reply the
  conversation whose follow-up was skipped for 72 hours is listed as due all the same.
\<close>

theorem snoozed_followup_still_due:
  "chats skipped_db = [answered_chat\<lparr>snoozed_until := Some 262800000000\<rparr>]
   \<and> 90000000000 < (262800000000 :: int)
   \<and> due (Chat_get_followups_due 90000000000 skipped_db)
       = [answered_chat\<lparr>snoozed_until := Some 262800000000\<rparr>]"
  by (simp add: chats_skipped_db Chat_get_followups_due_def followup_candidates_def answered_chat_def
      classify_def hours_since_def total_seconds_def threshold_cases)

section \<open>The unread counter\<close>

lemma Chat_get_apply_event:
  "Chat_get uid (apply_event uid e d) =
     map_option (case e of Inbound p ty now \<Rightarrow> new_message_row p ty now
                         | Reply now \<Rightarrow> mark_answered_row now
                         | Seen \<Rightarrow> mark_read_row) (Chat_get uid d)"
  by (cases e) (simp_all add: Chat_get_new_message Chat_get_mark_answered Chat_get_mark_read)

lemma run_events_tracks:
  assumes "Chat_get uid d = Some c" and "0 \<le> unread_count c"
    and "status c \<noteq> Unread \<longrightarrow> unread_count c = 0"
  shows "\<exists>c'. Chat_get uid (run_events uid es d) = Some c' \<and> 0 \<le> unread_count c'
           \<and> (status c', unread_count c') = foldl spec_step (status c, unread_count c) es"
  using assms
proof (induction es arbitrary: d c)
  case Nil
  then show ?case by simp
next
  case (Cons e es)
  define c1 where "c1 = (case e of Inbound p ty now \<Rightarrow> new_message_row p ty now c
                              | Reply now \<Rightarrow> mark_answered_row now c
                              | Seen \<Rightarrow> mark_read_row c)"
  have c1: "Chat_get uid (apply_event uid e d) = Some c1"
    using Cons.prems(1)
    by (cases e) (simp_all add: Chat_get_new_message Chat_get_mark_answered Chat_get_mark_read c1_def)
  have step: "(status c1, unread_count c1) = spec_step (status c, unread_count c) e"
    using Cons.prems(3)
    by (cases e) (simp_all add: c1_def new_message_row_def mark_answered_row_def mark_read_row_def)
  have nonneg: "0 \<le> unread_count c1"
    using Cons.prems(2)
    by (cases e) (simp_all add: c1_def new_message_row_def mark_answered_row_def mark_read_row_def)
  have cons: "status c1 \<noteq> Unread \<longrightarrow> unread_count c1 = 0"
    by (cases e) (simp_all add: c1_def new_message_row_def mark_answered_row_def mark_read_row_def)
  from Cons.IH [OF c1 nonneg cons] step show ?case
    by simp
qed

text \<open>
  C6. Along every sequence of inbound messages (\<open>Chat.new_message\<close>), successful replies
  (\<open>Chat.mark_answered\<close>) and reads (\<open>Chat.mark_read\<close>) on one conversation,
  \<open>unread_count\<close> is never negative and equals the number of inbound messages since the
  last transition to read or answered. The sequence starts in any state of the conversation
  in which the count is not negative and is 0 unless the status is unread, as it is after
  \<open>Chat.create\<close> has inserted the row.
\<close>

theorem unread_count_tracks_inbound:
  assumes "Chat_get uid d = Some c" and "0 \<le> unread_count c"
    and "status c \<noteq> Unread \<longrightarrow> unread_count c = 0"
  shows "\<exists>c'. Chat_get uid (run_events uid es d) = Some c' \<and> 0 \<le> unread_count c'
           \<and> unread_count c' = spec_inbound_since_transition (status c) (unread_count c) es"
proof -
  from run_events_tracks [OF assms, of es] obtain c' where
    "Chat_get uid (run_events uid es d) = Some c'" "0 \<le> unread_count c'"
    "(status c', unread_count c') = foldl spec_step (status c, unread_count c) es"
    by blast
  then show ?thesis
    by (metis spec_inbound_since_transition_def snd_conv)
qed

theorem unread_count_tracks_inbound_witness:
  "Chat_get 7 demo_db = Some (new_chat 7 ''ann'' ''Ann'' [] 11 0 0)
   \<and> 0 \<le> unread_count (new_chat 7 ''ann'' ''Ann'' [] 11 0 0)
   \<and> status (new_chat 7 ''ann'' ''Ann'' [] 11 0 0) = Unread
   \<and> spec_inbound_since_transition Unread 0 demo_events = 1
   \<and> (\<exists>c'. Chat_get 7 (run_events 7 demo_events demo_db) = Some c' \<and> 0 \<le> unread_count c'
          \<and> unread_count c' = 1)"
  using unread_count_tracks_inbound [OF Chat_get_demo_db, of demo_events]
  by (simp add: Chat_get_demo_db new_chat_def spec_inbound_since_transition_def demo_events_def)

section \<open>Reading a conversation that is read\<close>

lemma map_user_id_update_where:
  assumes "\<And>r. user_id (f r) = user_id r"
  shows "map user_id (update_where p f rows) = map user_id rows"
  using assms by (simp add: update_where_def)

lemma update_where_pres:
  assumes "\<forall>r \<in> set rows. Q r" and "\<And>r. Q r \<Longrightarrow> Q (f r)"
  shows "\<forall>r \<in> set (update_where p f rows). Q r"
  using assms by (auto simp: update_where_def)

lemma chats_inv_update:
  assumes "chats_inv d" and "\<And>r. user_id (f r) = user_id r"
    and "\<And>r. (status r = Read \<longrightarrow> unread_count r = 0) \<Longrightarrow> (status (f r) = Read \<longrightarrow> unread_count (f r) = 0)"
  shows "chats_inv (d\<lparr>chats := update_where p f (chats d)\<rparr>)"
  using assms unfolding chats_inv_def
  by (simp add: map_user_id_update_where) (auto simp: update_where_def)

lemma chats_inv_apply: "chats_inv d \<Longrightarrow> chats_inv (apply_chat_op x d)"
proof (cases x)
  case (Op_create uid uname fname lname tid now ts)
  assume inv: "chats_inv d"
  show ?thesis
  proof (cases "\<exists>r \<in> set (chats d). user_id r = uid")
    case True
    then show ?thesis using inv Op_create
      by (simp add: Chat_create_def chats_inv_update)
  next
    case False
    then show ?thesis using inv Op_create
      by (auto simp: Chat_create_def chats_inv_def new_chat_def)
  qed
qed (simp_all add: Chat_new_message_def Chat_mark_answered_def Chat_mark_read_def Chat_mark_unread_def
      Chat_set_priority_def Chat_archive_def Chat_snooze_def Chat_done_followup_def job_archive_def
      chats_inv_update new_message_row_def mark_answered_row_def mark_read_row_def mark_unread_row_def
      archive_row_def Let_def)

lemma chats_inv_run: "chats_inv d \<Longrightarrow> chats_inv (run_chat_ops ops d)"
  by (induction ops arbitrary: d) (simp_all add: chats_inv_apply)

lemma chats_inv_empty: "chats_inv empty_db"
  by (simp add: chats_inv_def empty_db_def)

lemma find_key_unique:
  assumes "distinct (map key rows)" and "find (\<lambda>r. key r = k) rows = Some c"
    and "r \<in> set rows" and "key r = k"
  shows "r = c"
  using assms by (induction rows) (auto split: if_splits)

lemma mark_read_row_idem: "mark_read_row (mark_read_row r) = mark_read_row r"
  by (simp add: mark_read_row_def)

lemma Chat_mark_read_idem: "Chat_mark_read uid (Chat_mark_read uid d) = Chat_mark_read uid d"
  by (simp add: Chat_mark_read_def update_where_def mark_read_row_idem)

lemma mark_read_fixed:
  assumes "chats_inv d" and "Chat_get uid d = Some c" and "status c = Read"
  shows "Chat_mark_read uid d = d"
proof -
  have c_in: "c \<in> set (chats d)"
    using assms(2) by (auto simp: Chat_get_def find_Some_iff)
  have zero: "unread_count c = 0"
    using assms(1,3) c_in by (simp add: chats_inv_def)
  have "mark_read_row c = c"
    using assms(3) zero by (simp add: mark_read_row_def)
  moreover have "\<forall>r \<in> set (chats d). user_id r = uid \<longrightarrow> r = c"
    using assms(1,2) find_key_unique [of user_id "chats d" uid c]
    by (auto simp: chats_inv_def Chat_get_def)
  ultimately have "update_where (\<lambda>r. user_id r = uid) mark_read_row (chats d) = chats d"
    unfolding update_where_def by (intro map_idI) auto
  then show ?thesis
    by (simp add: Chat_mark_read_def)
qed

text \<open>
  C8. \<open>Chat.mark_read\<close> on a conversation whose status is already read changes neither
  the status nor \<open>unread_count\<close>: in every state the program can reach from the empty
  database it changes nothing at all, and \<open>mark_read\<close> is idempotent in any state.
\<close>

theorem mark_read_noop_on_read:
  assumes "Chat_get uid (run_chat_ops ops empty_db) = Some c" and "status c = Read"
  shows "Chat_mark_read uid (run_chat_ops ops empty_db) = run_chat_ops ops empty_db
       \<and> (\<exists>c'. Chat_get uid (Chat_mark_read uid (run_chat_ops ops empty_db)) = Some c'
              \<and> status c' = status c \<and> unread_count c' = unread_count c)
       \<and> (\<forall>d. Chat_mark_read uid (Chat_mark_read uid d) = Chat_mark_read uid d)"
  using assms mark_read_fixed [OF chats_inv_run [OF chats_inv_empty], of uid ops c]
  by (simp add: Chat_mark_read_idem)

lemma demo_ops_get:
  "Chat_get 7 (run_chat_ops demo_ops empty_db)
   = Some (mark_read_row (new_message_row ''hello'' ''text'' 0 (new_chat 7 ''ann'' ''Ann'' [] 11 0 0)))"
  by (simp add: demo_ops_def Chat_get_mark_read Chat_get_new_message Chat_get_demo_db [unfolded demo_db_def])

theorem mark_read_noop_on_read_witness:
  "Chat_get 7 (run_chat_ops demo_ops empty_db)
     = Some (mark_read_row (new_message_row ''hello'' ''text'' 0 (new_chat 7 ''ann'' ''Ann'' [] 11 0 0)))
   \<and> status (mark_read_row (new_message_row ''hello'' ''text'' 0 (new_chat 7 ''ann'' ''Ann'' [] 11 0 0))) = Read
   \<and> Chat_mark_read 7 (run_chat_ops demo_ops empty_db) = run_chat_ops demo_ops empty_db"
  using mark_read_noop_on_read [OF demo_ops_get] demo_ops_get
  by (simp add: mark_read_row_def new_message_row_def)

section \<open>Outbox: backoff, retry ceiling and the drainer\<close>

lemma find_snoc:
  "find P (xs @ [x]) = (case find P xs of Some y \<Rightarrow> Some y | None \<Rightarrow> if P x then Some x else None)"
  by (induction xs) auto

lemma backoff_delay_values:
  "map backoff_delay [1..<11] = [5, 15, 45, 120, 300, 900, 3600, 3600, 3600, 3600]"
  by (simp add: backoff_delay_def delays_def upt_rec [of _ "numeral _"] min_def nth_Cons' )

lemma backoff_delay_max: "7 \<le> k \<Longrightarrow> backoff_delay k = 3600"
  by (simp add: backoff_delay_def delays_def min_def)

lemma backoff_delay_Suc: "backoff_delay k \<le> backoff_delay (Suc k)"
proof -
  consider "k = 0" | "k = 1" | "k = 2" | "k = 3" | "k = 4" | "k = 5" | "k = 6" | "7 \<le> k"
    by linarith
  then show ?thesis
    by cases (simp_all add: backoff_delay_def delays_def min_def)
qed

lemma backoff_delay_mono: "j \<le> k \<Longrightarrow> backoff_delay j \<le> backoff_delay k"
  by (rule lift_Suc_mono_le [of backoff_delay]) (simp_all add: backoff_delay_Suc)

lemma row_of_mark_failed:
  "outbox_row_of oid (Outbox_mark_failed oid error now d)
   = map_option (failed_row error now) (outbox_row_of oid d)"
proof (cases "outbox_row_of oid d")
  case None
  then have "\<forall>r \<in> set (outbox d). ob_id r \<noteq> oid"
    by (auto simp: outbox_row_of_def find_None_iff)
  then have "find (\<lambda>r. ob_id r = oid) (update_where (\<lambda>r. ob_id r = oid) f (outbox d)) = None" for f
    by (auto simp: find_None_iff update_where_def)
  then show ?thesis
    using None by (simp add: outbox_row_of_def Outbox_mark_failed_def Let_def)
next
  case (Some row)
  then show ?thesis
    by (simp add: outbox_row_of_def Outbox_mark_failed_def Let_def find_update_where_key failed_row_def)
qed

lemma row_of_mark_failed_other:
  "oid \<noteq> k \<Longrightarrow> outbox_row_of k (Outbox_mark_failed oid error now d) = outbox_row_of k d"
  by (simp add: outbox_row_of_def Outbox_mark_failed_def Let_def find_update_where_other)

lemma row_of_mark_sent:
  "outbox_row_of oid (Outbox_mark_sent oid d) = map_option (\<lambda>r. r\<lparr>ob_status := Sent\<rparr>) (outbox_row_of oid d)"
  by (simp add: outbox_row_of_def Outbox_mark_sent_def find_update_where_key)

lemma row_of_mark_sent_other:
  "oid \<noteq> k \<Longrightarrow> outbox_row_of k (Outbox_mark_sent oid d) = outbox_row_of k d"
  by (simp add: outbox_row_of_def Outbox_mark_sent_def find_update_where_other)

lemma row_of_add:
  assumes "outbox_wf d"
  shows "outbox_row_of (outbox_seq d + 1) (Outbox_add dir src dst mid tid now ts d)
         = Some \<lparr>ob_id = outbox_seq d + 1, ob_direction = dir, ob_from_chat_id = src,
            ob_to_chat_id = dst, ob_message_id = mid, ob_topic_id = tid,
            ob_retry_count = 0, ob_next_retry_at = now, ob_status = Pending,
            ob_error = None, ob_created_at = ts\<rparr>"
proof -
  have "find (\<lambda>r. ob_id r = outbox_seq d + 1) (outbox d) = None"
    using assms by (fastforce simp: outbox_wf_def find_None_iff)
  then show ?thesis
    by (simp add: outbox_row_of_def Outbox_add_def find_snoc)
qed

lemma fail_repeatedly_row:
  assumes "outbox_row_of oid d = Some e"
  shows "\<exists>e'. outbox_row_of oid (fail_repeatedly oid error (clocks @ [now]) d) = Some e'
           \<and> ob_retry_count e' = ob_retry_count e + length clocks + 1
           \<and> ob_status e' = (if 10 \<le> ob_retry_count e + length clocks + 1 then Failed else ob_status e)
           \<and> (ob_retry_count e + length clocks + 1 < 10 \<longrightarrow>
                ob_next_retry_at e' = now + timedelta_seconds (backoff_delay (ob_retry_count e + length clocks + 1)))"
  using assms
proof (induction clocks arbitrary: d e)
  case Nil
  then show ?case
    by (simp add: row_of_mark_failed failed_row_def)
next
  case (Cons c clocks)
  have step: "outbox_row_of oid (Outbox_mark_failed oid error c d) = Some (failed_row error c e)"
    using Cons.prems by (simp add: row_of_mark_failed)
  from Cons.IH [OF step] show ?case
    by (auto simp: failed_row_def split: if_splits)
qed

lemma get_pending_rows:
  assumes "r \<in> set (Outbox_get_pending now d)"
  shows "r \<in> set (outbox d) \<and> ob_status r = Pending \<and> ob_next_retry_at r \<le> now"
  using in_set_takeD [OF assms [unfolded Outbox_get_pending_def]] by simp

lemma row_of_Some_in: "outbox_row_of k d = Some e \<Longrightarrow> e \<in> set (outbox d) \<and> ob_id e = k"
  by (auto simp: outbox_row_of_def find_Some_iff)

lemma row_of_unique:
  assumes "outbox_wf d" and "r \<in> set (outbox d)"
  shows "outbox_row_of (ob_id r) d = Some r"
proof -
  obtain c where c: "find (\<lambda>x. ob_id x = ob_id r) (outbox d) = Some c"
    using assms(2) by (cases "find (\<lambda>x. ob_id x = ob_id r) (outbox d)") (auto simp: find_None_iff)
  have "r = c"
    using find_key_unique [of ob_id "outbox d" "ob_id r" c r] assms c by (simp add: outbox_wf_def)
  then show ?thesis
    using c by (simp add: outbox_row_of_def)
qed

text \<open>
  C2. Across consecutive \<open>Outbox.mark_failed\<close> calls on an entry the computed delay is
  non-decreasing and follows the table 5s, 15s, 45s, 2m, 5m, 15m, 1h, the last value
  repeating; while the entry stays pending, \<open>next_retry_at\<close> minus the current time is that
  delay. The entry, created pending by \<open>Outbox.add\<close>, has the status failed exactly from
  the 10th failure on, never before, and a failed entry is never returned by
  \<open>Outbox.get_pending\<close>.
\<close>

theorem backoff_and_ceiling:
  assumes "outbox_wf d"
    and "d0 = Outbox_add dir src dst mid tid t0 ts d"
    and "oid = outbox_seq d + 1"
    and "D = fail_repeatedly oid error (clocks @ [now]) d0"
    and "n = length clocks + 1"
  shows "(\<forall>j k. j \<le> k \<longrightarrow> backoff_delay j \<le> backoff_delay k)
       \<and> map backoff_delay [1..<11] = [5, 15, 45, 120, 300, 900, 3600, 3600, 3600, 3600]
       \<and> (\<forall>k\<ge>7. backoff_delay k = 3600)
       \<and> (\<exists>e0. outbox_row_of oid d0 = Some e0 \<and> ob_status e0 = Pending \<and> ob_retry_count e0 = 0)
       \<and> (\<exists>e. outbox_row_of oid D = Some e
              \<and> ob_retry_count e = n
              \<and> (n < 10 \<longrightarrow> ob_status e = Pending
                    \<and> ob_next_retry_at e - now = timedelta_seconds (backoff_delay n))
              \<and> (ob_status e = Failed \<longleftrightarrow> 10 \<le> n)
              \<and> (10 \<le> n \<longrightarrow> (\<forall>t. e \<notin> set (Outbox_get_pending t D))))"
proof -
  let ?e0 = "\<lparr>ob_id = outbox_seq d + 1, ob_direction = dir, ob_from_chat_id = src,
            ob_to_chat_id = dst, ob_message_id = mid, ob_topic_id = tid,
            ob_retry_count = 0, ob_next_retry_at = t0, ob_status = Pending,
            ob_error = None, ob_created_at = ts\<rparr>"
  have e0: "outbox_row_of oid d0 = Some ?e0"
    using assms(1-3) by (simp add: row_of_add)
  from fail_repeatedly_row [OF e0, of error clocks now] obtain e where
    e: "outbox_row_of oid D = Some e"
    and rc: "ob_retry_count e = n"
    and st: "ob_status e = (if 10 \<le> n then Failed else Pending)"
    and nx: "n < 10 \<longrightarrow> ob_next_retry_at e = now + timedelta_seconds (backoff_delay n)"
    using assms(4,5) by auto
  have never: "10 \<le> n \<longrightarrow> (\<forall>t. e \<notin> set (Outbox_get_pending t D))"
    using st get_pending_rows [of e _ D] by auto
  have "\<exists>e. outbox_row_of oid D = Some e
              \<and> ob_retry_count e = n
              \<and> (n < 10 \<longrightarrow> ob_status e = Pending
                    \<and> ob_next_retry_at e - now = timedelta_seconds (backoff_delay n))
              \<and> (ob_status e = Failed \<longleftrightarrow> 10 \<le> n)
              \<and> (10 \<le> n \<longrightarrow> (\<forall>t. e \<notin> set (Outbox_get_pending t D)))"
    using e rc st nx never by (intro exI [of _ e]) auto
  moreover have "\<exists>e0. outbox_row_of oid d0 = Some e0 \<and> ob_status e0 = Pending \<and> ob_retry_count e0 = 0"
    using e0 by simp
  ultimately show ?thesis
    using backoff_delay_mono backoff_delay_values backoff_delay_max by blast
qed

lemma chats_process_items [simp]:
  "chats (process_items copy_message clock items d) = chats d"
  "sent_messages (process_items copy_message clock items d) = sent_messages d"
  "messages (process_items copy_message clock items d) = messages d"
  "outbox_seq (process_items copy_message clock items d) = outbox_seq d"
  by (induction items arbitrary: d)
     (simp_all add: Outbox_mark_sent_def Outbox_mark_failed_def Let_def split: transport_result.splits)

lemma ids_process_items [simp]:
  "map ob_id (outbox (process_items copy_message clock items d)) = map ob_id (outbox d)"
  by (induction items arbitrary: d)
     (simp_all add: Outbox_mark_sent_def Outbox_mark_failed_def Let_def update_where_def
        split: transport_result.splits)

lemma outbox_wf_alt:
  "outbox_wf d \<longleftrightarrow> distinct (map ob_id (outbox d)) \<and> (\<forall>x \<in> set (map ob_id (outbox d)). x \<le> outbox_seq d)"
  by (simp add: outbox_wf_def)

lemma outbox_wf_tick:
  assumes "outbox_wf d"
  shows "outbox_wf (job_process_outbox copy_message clock now d)"
  using assms
  unfolding outbox_wf_alt job_process_outbox_def ids_process_items chats_process_items
  by assumption

text \<open>The relay functions keep the outbox well-formed as well, whatever the transport does.\<close>

lemma outbox_wf_add:
  assumes "outbox_wf d"
  shows "outbox_wf (Outbox_add dir src dst mid tid now ts d)"
  using assms by (fastforce simp: outbox_wf_def Outbox_add_def)

lemma outbox_wf_forward_to_topic:
  assumes "outbox_wf d"
  shows "outbox_wf (snd (forward_to_topic r m tid uid now ts d))"
proof (cases r)
  case (Delivered sent_id)
  then show ?thesis
    using assms
    by (simp add: forward_to_topic_def Let_def outbox_wf_def log_msg_def Chat_new_message_def
        Outbox_add_def split: attribute.splits) fastforce
next
  case (Raised e)
  then show ?thesis
    using outbox_wf_add [OF assms] by (simp add: forward_to_topic_def)
qed

lemma outbox_wf_forward_to_user:
  assumes "outbox_wf d"
  shows "outbox_wf (snd (forward_to_user r m uid tid now ts d))"
proof (cases r)
  case (Delivered sent_id)
  then show ?thesis
    using assms
    by (simp add: forward_to_user_def Let_def outbox_wf_def log_msg_def Chat_mark_answered_def
        save_message_mapping_def Outbox_add_def split: attribute.splits) fastforce
next
  case (Raised e)
  then show ?thesis
    using outbox_wf_add [OF assms] by (simp add: forward_to_user_def)
qed

lemma process_items_other:
  assumes "k \<notin> ob_id ` set items"
  shows "outbox_row_of k (process_items copy_message clock items d) = outbox_row_of k d"
  using assms
  by (induction items arbitrary: d)
     (auto simp: row_of_mark_sent_other row_of_mark_failed_other split: transport_result.splits)

lemma process_items_hit:
  assumes "distinct (map ob_id items)" and "item \<in> set items"
    and "copy_message item = Delivered sent_id" and "outbox_row_of (ob_id item) d = Some item"
  shows "outbox_row_of (ob_id item) (process_items copy_message clock items d)
         = Some (item\<lparr>ob_status := Sent\<rparr>)"
  using assms
proof (induction items arbitrary: d)
  case Nil
  then show ?case by simp
next
  case (Cons x items)
  show ?case
  proof (cases "x = item")
    case True
    have "ob_id item \<notin> ob_id ` set items"
      using Cons.prems(1) True by auto
    then show ?thesis
      using True Cons.prems(3,4) by (simp add: process_items_other row_of_mark_sent)
  next
    case False
    then have mem: "item \<in> set items"
      using Cons.prems(2) by simp
    then have neq: "ob_id x \<noteq> ob_id item"
      using Cons.prems(1) by force
    have "outbox_row_of (ob_id item)
            (case copy_message x of Delivered s \<Rightarrow> Outbox_mark_sent (ob_id x) d
             | Raised e \<Rightarrow> Outbox_mark_failed (ob_id x) e (clock x) d) = Some item"
      using neq Cons.prems(4)
      by (simp add: row_of_mark_sent_other row_of_mark_failed_other split: transport_result.splits)
    from Cons.IH [OF _ mem Cons.prems(3) this] Cons.prems(1) show ?thesis
      by simp
  qed
qed

lemma distinct_map_take_sort_filter:
  assumes "distinct (map f xs)"
  shows "distinct (map f (take n (sort_key g (filter P xs))))"
proof -
  have "distinct (map f (filter P xs))"
    using assms by (rule distinct_map_filter)
  then have "distinct (filter P xs)" and "inj_on f (set (filter P xs))"
    by (simp_all only: distinct_map)
  then have "distinct (sort_key g (filter P xs))" and "inj_on f (set (sort_key g (filter P xs)))"
    by (simp_all only: distinct_sort set_sort)
  then have "distinct (map f (sort_key g (filter P xs)))"
    by (simp only: distinct_map)
  then have "distinct (take n (map f (sort_key g (filter P xs))))"
    by (rule distinct_take)
  then show ?thesis
    by (simp only: take_map)
qed

lemma distinct_ids_get_pending:
  assumes "outbox_wf d"
  shows "distinct (map ob_id (Outbox_get_pending now d))"
  using assms unfolding Outbox_get_pending_def outbox_wf_def
  by (intro distinct_map_take_sort_filter) simp

lemma tick_keeps_settled:
  assumes "outbox_wf d" and "outbox_row_of k d = Some r" and "ob_status r \<noteq> Pending"
  shows "outbox_row_of k (job_process_outbox copy_message clock now d) = Some r"
proof -
  have "k \<notin> ob_id ` set (Outbox_get_pending now d)"
  proof
    assume "k \<in> ob_id ` set (Outbox_get_pending now d)"
    then obtain x where x: "x \<in> set (Outbox_get_pending now d)" "ob_id x = k"
      by auto
    then have "outbox_row_of k d = Some x"
      using row_of_unique [OF assms(1), of x] get_pending_rows [of x now d] by auto
    then show False
      using assms(2,3) x(1) get_pending_rows [of x now d] by simp
  qed
  then show ?thesis
    using assms(2) by (simp add: job_process_outbox_def process_items_other)
qed

lemma ticks_keep_settled:
  assumes "outbox_wf d" and "outbox_row_of k d = Some r" and "ob_status r \<noteq> Pending"
  shows "outbox_row_of k (run_ticks ticks d) = Some r"
  using assms
proof (induction ticks arbitrary: d)
  case Nil
  then show ?case by simp
next
  case (Cons tick ticks)
  obtain copy_message clock now where tick: "tick = (copy_message, clock, now)"
    by (cases tick) auto
  have wf': "outbox_wf (job_process_outbox copy_message clock now d)"
    by (rule outbox_wf_tick [OF Cons.prems(1)])
  have row': "outbox_row_of k (job_process_outbox copy_message clock now d) = Some r"
    by (rule tick_keeps_settled [OF Cons.prems])
  show ?case
    using Cons.IH [OF wf' row' Cons.prems(3)] tick by simp
qed

text \<open>
  What a tick does to an entry it delivers: the status becomes sent, the other columns
  stay, and no later tick selects or changes the entry again. The tick writes the outbox
  only; the conversation store, the mapping log and the message log are as before.
\<close>

lemma drain_marks_sent_only:
  assumes "outbox_wf d" and "item \<in> set (Outbox_get_pending now d)"
    and "copy_message item = Delivered sent_id"
    and "D = job_process_outbox copy_message clock now d"
  shows "outbox_row_of (ob_id item) D = Some (item\<lparr>ob_status := Sent\<rparr>)
       \<and> chats D = chats d \<and> sent_messages D = sent_messages d \<and> messages D = messages d
       \<and> (\<forall>t. item\<lparr>ob_status := Sent\<rparr> \<notin> set (Outbox_get_pending t D))
       \<and> (\<forall>ticks. outbox_row_of (ob_id item) (run_ticks ticks D) = Some (item\<lparr>ob_status := Sent\<rparr>)
                 \<and> chats (run_ticks ticks D) = chats d)"
proof -
  have row: "outbox_row_of (ob_id item) d = Some item"
    using row_of_unique [OF assms(1)] get_pending_rows [OF assms(2)] by simp
  have sent: "outbox_row_of (ob_id item) D = Some (item\<lparr>ob_status := Sent\<rparr>)"
    unfolding assms(4) job_process_outbox_def
    by (rule process_items_hit [where items = "Outbox_get_pending now d" and item = item
          and copy_message = copy_message and sent_id = sent_id,
          OF distinct_ids_get_pending [OF assms(1)] assms(2) assms(3) row])
  have wfD: "outbox_wf D"
    unfolding assms(4) by (rule outbox_wf_tick [OF assms(1)])
  have never: "\<forall>t. item\<lparr>ob_status := Sent\<rparr> \<notin> set (Outbox_get_pending t D)"
    using get_pending_rows [of "item\<lparr>ob_status := Sent\<rparr>" _ D] by auto
  have later: "outbox_row_of (ob_id item) (run_ticks ticks D) = Some (item\<lparr>ob_status := Sent\<rparr>)" for ticks
    by (rule ticks_keep_settled [OF wfD sent]) simp
  have chats_ticks: "chats (run_ticks ticks x) = chats x" for ticks x
    by (induction ticks arbitrary: x) (auto simp: job_process_outbox_def)
  show ?thesis
    using sent never later chats_ticks [of _ D] by (simp add: assms(4) job_process_outbox_def)
qed

lemma outbox_wf_empty: "outbox_wf empty_db"
  by (simp add: outbox_wf_def empty_db_def)

lemma chats_read_db:
  "chats read_db = [mark_read_row (new_message_row ''hello'' ''text'' 0 (new_chat 7 ''ann'' ''Ann'' [] 11 0 0))]"
  by (simp add: read_db_def demo_ops_def Chat_mark_read_def Chat_new_message_def Chat_create_def
      empty_db_def update_where_def new_chat_def new_message_row_def mark_read_row_def)

lemma outbox_read_db: "outbox read_db = [] \<and> outbox_seq read_db = 0"
  by (simp add: read_db_def demo_ops_def Chat_mark_read_def Chat_new_message_def Chat_create_def
      empty_db_def)

lemma outbox_queued_db: "outbox queued_db = [queued_item] \<and> outbox_seq queued_db = 1"
  by (simp add: queued_db_def forward_to_topic_def Outbox_add_def outbox_read_db queued_item_def
      demo_msg_def)

lemma chats_queued_db: "chats queued_db = chats read_db"
  by (simp add: queued_db_def forward_to_topic_def Outbox_add_def)

lemma pending_queued_db: "Outbox_get_pending 35000000 queued_db = [queued_item]"
  by (simp add: Outbox_get_pending_def outbox_queued_db) (simp add: queued_item_def)

lemma outbox_drained_db: "outbox drained_db = [queued_item\<lparr>ob_status := Sent\<rparr>]"
  by (simp add: drained_db_def job_process_outbox_def pending_queued_db always_delivers_def
      Outbox_mark_sent_def outbox_queued_db update_where_def)

lemma chats_drained_db: "chats drained_db = chats read_db"
  by (simp add: drained_db_def job_process_outbox_def chats_queued_db)

lemma outbox_wf_queued_db: "outbox_wf queued_db"
  by (simp add: outbox_wf_def outbox_queued_db) (simp add: queued_item_def)

lemma chats_unread_db:
  "chats unread_db = [new_message_row ''hello'' ''text'' 0 (new_chat 7 ''ann'' ''Ann'' [] 11 0 0)]"
  by (simp add: unread_db_def demo_db_def Chat_new_message_def Chat_create_def empty_db_def
      update_where_def new_chat_def new_message_row_def)

lemma outbox_unread_db: "outbox unread_db = [] \<and> outbox_seq unread_db = 0"
  by (simp add: unread_db_def demo_db_def Chat_new_message_def Chat_create_def empty_db_def)

lemma outbox_queued_user_db: "outbox queued_user_db = [queued_user_item]"
  by (simp add: queued_user_db_def forward_to_user_def Outbox_add_def outbox_unread_db
      queued_user_item_def demo_admin_msg_def)

lemma chats_queued_user_db: "chats queued_user_db = chats unread_db"
  by (simp add: queued_user_db_def forward_to_user_def Outbox_add_def)

lemma pending_queued_user_db: "Outbox_get_pending 35000000 queued_user_db = [queued_user_item]"
  by (simp add: Outbox_get_pending_def outbox_queued_user_db) (simp add: queued_user_item_def)

lemma outbox_drained_user_db: "outbox drained_user_db = [queued_user_item\<lparr>ob_status := Sent\<rparr>]"
  by (simp add: drained_user_db_def job_process_outbox_def pending_queued_user_db
      always_delivers_def Outbox_mark_sent_def outbox_queued_user_db update_where_def)

lemma chats_drained_user_db: "chats drained_user_db = chats unread_db"
  by (simp add: drained_user_db_def job_process_outbox_def chats_queued_user_db)

text \<open>
  C1. An outbox entry created by a failed immediate relay and redelivered by a later
  drainer tick becomes sent exactly once, and the conversation store undergoes the
  transition of a delivery: unread with \<open>unread_count\<close> incremented for a \<open>to_topic\<close>
  entry, answered with \<open>unread_count\<close> 0 and \<open>last_reply_at\<close> set for a \<open>to_user\<close> entry.
  The code marks the entry sent (\<open>drain_marks_sent_only\<close>) but never writes the
  conversation: after the drain of the \<open>to_topic\<close> entry the read conversation is still
  read with no unread message, and after the drain of the \<open>to_user\<close> entry the unread
  conversation is still unread with one unread message and no \<open>last_reply_at\<close>.
\<close>

theorem drained_conversation_unchanged:
  "outbox queued_db = [queued_item]
   \<and> outbox drained_db = [queued_item\<lparr>ob_status := Sent\<rparr>]
   \<and> map status (chats drained_db) = [Read]
   \<and> map unread_count (chats drained_db) = [0]
   \<and> outbox queued_user_db = [queued_user_item]
   \<and> outbox drained_user_db = [queued_user_item\<lparr>ob_status := Sent\<rparr>]
   \<and> map status (chats drained_user_db) = [Unread]
   \<and> map unread_count (chats drained_user_db) = [1]
   \<and> map last_reply_at (chats drained_user_db) = [None]"
  by (simp add: outbox_queued_db outbox_drained_db chats_drained_db chats_read_db
      outbox_queued_user_db outbox_drained_user_db chats_drained_user_db chats_unread_db
      mark_read_row_def new_message_row_def new_chat_def)

theorem backoff_and_ceiling_witness:
  "outbox_wf empty_db
   \<and> (\<exists>e. outbox_row_of 1 (fail_repeatedly 1 ''timed out'' (demo_fail_clocks @ [10])
              (Outbox_add To_user 7 7 42 (Some 11) 0 0 empty_db)) = Some e
          \<and> ob_retry_count e = 10 \<and> ob_status e = Failed
          \<and> (\<forall>t. e \<notin> set (Outbox_get_pending t (fail_repeatedly 1 ''timed out'' (demo_fail_clocks @ [10])
              (Outbox_add To_user 7 7 42 (Some 11) 0 0 empty_db)))))
   \<and> (\<exists>e. outbox_row_of 1 (fail_repeatedly 1 ''timed out'' ([] @ [10])
              (Outbox_add To_user 7 7 42 (Some 11) 0 0 empty_db)) = Some e
          \<and> ob_retry_count e = 1 \<and> ob_status e = Pending \<and> ob_next_retry_at e - 10 = 5000000)"
proof -
  have oid: "(1::int) = outbox_seq empty_db + 1"
    by (simp add: empty_db_def)
  have ten: "(10::nat) = length demo_fail_clocks + 1"
    by (simp add: demo_fail_clocks_def)
  have one: "(1::nat) = length ([]::timestamp list) + 1"
    by simp
  have delay: "timedelta_seconds (backoff_delay 1) = 5000000"
    by (simp add: timedelta_seconds_def backoff_delay_def delays_def)
  have a: "\<exists>e. outbox_row_of 1 (fail_repeatedly 1 ''timed out'' (demo_fail_clocks @ [10])
              (Outbox_add To_user 7 7 42 (Some 11) 0 0 empty_db)) = Some e
          \<and> ob_retry_count e = 10 \<and> ob_status e = Failed
          \<and> (\<forall>t. e \<notin> set (Outbox_get_pending t (fail_repeatedly 1 ''timed out'' (demo_fail_clocks @ [10])
              (Outbox_add To_user 7 7 42 (Some 11) 0 0 empty_db))))"
    using backoff_and_ceiling [OF outbox_wf_empty refl oid refl ten,
        of To_user 7 7 42 "Some 11" 0 0 "''timed out''" 10]
    by auto
  have b: "\<exists>e. outbox_row_of 1 (fail_repeatedly 1 ''timed out'' ([] @ [10])
              (Outbox_add To_user 7 7 42 (Some 11) 0 0 empty_db)) = Some e
          \<and> ob_retry_count e = 1 \<and> ob_status e = Pending \<and> ob_next_retry_at e - 10 = 5000000"
    using backoff_and_ceiling [OF outbox_wf_empty refl oid refl one,
        of To_user 7 7 42 "Some 11" 0 0 "''timed out''" 10] delay
    by auto
  show ?thesis
    using outbox_wf_empty a b by (intro conjI)
qed

section \<open>The message mapping log\<close>

lemma last_n_last_n_append: "last_n n (last_n n xs @ ys) = last_n n (xs @ ys)"
proof (cases "length xs \<le> n")
  case True
  then show ?thesis by (simp add: last_n_def)
next
  case False
  then have "length xs + length ys - (length xs - n + n) + (length xs - n) = length xs + length ys - n"
    by simp
  then show ?thesis
    using False by (auto simp: last_n_def)
qed

lemma length_last_n: "length (last_n n xs) \<le> n"
  by (simp add: last_n_def)

lemma last_n_short: "length xs \<le> n \<Longrightarrow> last_n n xs = xs"
  by (simp add: last_n_def)

lemma map_last_n: "map f (last_n n xs) = last_n n (map f xs)"
  by (simp add: last_n_def drop_map)

lemma filter_in_suffix:
  assumes "distinct (map f (ys @ zs))"
  shows "filter (\<lambda>x. f x \<in> f ` set zs) (ys @ zs) = zs"
proof -
  have "\<forall>x \<in> set ys. f x \<notin> f ` set zs"
    using assms by auto
  then have "filter (\<lambda>x. f x \<in> f ` set zs) ys = []"
    by (simp add: filter_empty_conv)
  moreover have "filter (\<lambda>x. f x \<in> f ` set zs) zs = zs"
    by (simp add: filter_id_conv)
  ultimately show ?thesis
    by simp
qed

lemma filter_in_drop:
  assumes "distinct (map f xs)"
  shows "filter (\<lambda>x. f x \<in> f ` set (drop k xs)) xs = drop k xs"
  using filter_in_suffix [of f "take k xs" "drop k xs"] assms by simp

lemma keep_ids_sorted:
  assumes "sorted_wrt (<) (map sm_id rows)"
  shows "set (keep_ids uid rows) = sm_id ` set (last_n 100 (filter (\<lambda>r. sm_user_id r = uid) rows))"
proof -
  have "sorted_wrt (<) (map sm_id (filter (\<lambda>r. sm_user_id r = uid) rows))"
    using assms by (simp add: sorted_wrt_map sorted_wrt_filter)
  then have "sort (map sm_id (filter (\<lambda>r. sm_user_id r = uid) rows))
             = map sm_id (filter (\<lambda>r. sm_user_id r = uid) rows)"
    by (intro sorted_sort_id strict_sorted_imp_sorted)
  then have "keep_ids uid rows = rev (map sm_id (last_n 100 (filter (\<lambda>r. sm_user_id r = uid) rows)))"
    by (simp add: keep_ids_def take_rev last_n_def drop_map)
  then show ?thesis
    by simp
qed

lemma sorted_ids_distinct: "sorted_wrt (<) (map sm_id rows) \<Longrightarrow> distinct (map sm_id rows)"
  using strict_sorted_iff by blast

lemma prune_user:
  assumes "sorted_wrt (<) (map sm_id rows)"
  shows "filter (\<lambda>r. sm_user_id r = u)
           (filter (\<lambda>r. \<not> (sm_user_id r = uid \<and> sm_id r \<notin> set (keep_ids uid rows))) rows)
         = (if u = uid then last_n 100 (filter (\<lambda>r. sm_user_id r = uid) rows)
            else filter (\<lambda>r. sm_user_id r = u) rows)"
proof (cases "u = uid")
  case False
  then have "filter (\<lambda>r. sm_user_id r = u)
           (filter (\<lambda>r. \<not> (sm_user_id r = uid \<and> sm_id r \<notin> set (keep_ids uid rows))) rows)
         = filter (\<lambda>r. sm_user_id r = u) rows"
    by (auto simp: filter_filter intro: filter_cong)
  then show ?thesis
    using False by simp
next
  case True
  let ?U = "filter (\<lambda>r. sm_user_id r = uid) rows"
  have dist: "distinct (map sm_id ?U)"
    using assms by (simp add: sorted_ids_distinct distinct_map_filter)
  have "filter (\<lambda>r. sm_user_id r = uid)
           (filter (\<lambda>r. \<not> (sm_user_id r = uid \<and> sm_id r \<notin> set (keep_ids uid rows))) rows)
        = filter (\<lambda>r. sm_id r \<in> sm_id ` set (last_n 100 ?U)) ?U"
    by (auto simp: filter_filter keep_ids_sorted [OF assms] intro: filter_cong)
  also have "\<dots> = last_n 100 ?U"
    unfolding last_n_def by (rule filter_in_drop [OF dist])
  finally show ?thesis
    using True by simp
qed

lemma save_message_mapping_rows:
  assumes "sm_wf d"
  shows "user_rows u (save_message_mapping uid t m ts d)
         = (if u = uid
            then last_n 100 (user_rows uid d @
                   [\<lparr>sm_id = sent_messages_seq d + 1, sm_user_id = uid, sm_topic_msg_id = t,
                     sm_user_msg_id = m, sm_created_at = ts\<rparr>])
            else user_rows u d)"
proof -
  let ?new = "\<lparr>sm_id = sent_messages_seq d + 1, sm_user_id = uid, sm_topic_msg_id = t,
                     sm_user_msg_id = m, sm_created_at = ts\<rparr>"
  have sorted: "sorted_wrt (<) (map sm_id (sent_messages d @ [?new]))"
    using assms by (fastforce simp: sm_wf_def sorted_wrt_append)
  show ?thesis
    using prune_user [OF sorted, of u uid]
    by (simp add: user_rows_def save_message_mapping_def Let_def)
qed

lemma save_message_mapping_wf:
  assumes "sm_wf d"
  shows "sm_wf (save_message_mapping uid t m ts d)"
proof -
  let ?new = "\<lparr>sm_id = sent_messages_seq d + 1, sm_user_id = uid, sm_topic_msg_id = t,
                     sm_user_msg_id = m, sm_created_at = ts\<rparr>"
  let ?d' = "save_message_mapping uid t m ts d"
  have sorted: "sorted_wrt (<) (map sm_id (sent_messages d @ [?new]))"
    using assms by (fastforce simp: sm_wf_def sorted_wrt_append)
  then have "sorted_wrt (\<lambda>x y. sm_id x < sm_id y) (sent_messages d @ [?new])"
    by (simp only: sorted_wrt_map)
  then have "sorted_wrt (\<lambda>x y. sm_id x < sm_id y) (filter P (sent_messages d @ [?new]))" for P
    by (rule sorted_wrt_filter)
  then have filtered: "sorted_wrt (<) (map sm_id (filter P (sent_messages d @ [?new])))" for P
    by (simp only: sorted_wrt_map)
  have rows: "sent_messages ?d' =
      filter (\<lambda>r. \<not> (sm_user_id r = uid \<and> sm_id r \<notin> set (keep_ids uid (sent_messages d @ [?new]))))
        (sent_messages d @ [?new])"
    by (simp add: save_message_mapping_def Let_def)
  have s1: "sorted_wrt (<) (map sm_id (sent_messages ?d'))"
    unfolding rows by (rule filtered)
  have seq: "sent_messages_seq ?d' = sent_messages_seq d + 1"
    by (simp add: save_message_mapping_def Let_def)
  have "set (sent_messages ?d') \<subseteq> insert ?new (set (sent_messages d))"
    unfolding rows by auto
  moreover have "\<forall>r \<in> insert ?new (set (sent_messages d)). sm_id r \<le> sent_messages_seq d + 1"
    using assms by (fastforce simp: sm_wf_def)
  ultimately have s2: "\<forall>r \<in> set (sent_messages ?d'). sm_id r \<le> sent_messages_seq ?d'"
    unfolding seq by blast
  have s3: "\<forall>u. length (user_rows u ?d') \<le> 100"
    using assms by (simp add: save_message_mapping_rows [OF assms] length_last_n sm_wf_def)
  show ?thesis
    using s1 s2 s3 by (simp add: sm_wf_def)
qed

lemma sm_wf_empty: "sm_wf empty_db"
  by (simp add: sm_wf_def empty_db_def user_rows_def)

lemma run_inserts_rows:
  assumes "sm_wf d"
  shows "map mapping_of (user_rows u (run_inserts ins d))
         = last_n 100 (map mapping_of (user_rows u d) @ user_inserts u ins)"
  using assms
proof (induction ins arbitrary: d)
  case Nil
  then show ?case
    by (simp add: user_inserts_def last_n_short sm_wf_def)
next
  case (Cons i ins)
  obtain uid t m ts where i: "i = (uid, t, m, ts)"
    by (cases i) auto
  let ?d' = "save_message_mapping uid t m ts d"
  have wf': "sm_wf ?d'"
    by (rule save_message_mapping_wf [OF Cons.prems])
  have IH: "map mapping_of (user_rows u (run_inserts ins ?d'))
         = last_n 100 (map mapping_of (user_rows u ?d') @ user_inserts u ins)"
    by (rule Cons.IH [OF wf'])
  show ?case
  proof (cases "u = uid")
    case True
    have "map mapping_of (user_rows u ?d')
          = last_n 100 (map mapping_of (user_rows u d) @ [i])"
      using True i by (simp add: save_message_mapping_rows [OF Cons.prems] map_last_n mapping_of_def)
    then show ?thesis
      using IH i True by (simp add: last_n_last_n_append user_inserts_def)
  next
    case False
    then show ?thesis
      using IH i by (simp add: save_message_mapping_rows [OF Cons.prems] user_inserts_def)
  qed
qed

lemma run_inserts_empty:
  "map mapping_of (user_rows u (run_inserts ins empty_db)) = last_n 100 (user_inserts u ins)"
  using run_inserts_rows [OF sm_wf_empty, of u ins]
  by (simp add: user_rows_def empty_db_def)

lemma get_user_msg_id_None:
  "get_user_msg_id u t d = None \<longleftrightarrow> t \<notin> set (map (\<lambda>i. fst (snd i)) (map mapping_of (user_rows u d)))"
proof -
  have "get_user_msg_id u t d = None
        \<longleftrightarrow> find (\<lambda>r. sm_user_id r = u \<and> sm_topic_msg_id r = t) (sent_messages d) = None"
    by (simp add: get_user_msg_id_def split: option.splits)
  also have "\<dots> \<longleftrightarrow> t \<notin> sm_topic_msg_id ` set (user_rows u d)"
    by (auto simp: find_None_iff user_rows_def)
  also have "sm_topic_msg_id ` set (user_rows u d)
             = set (map (\<lambda>i. fst (snd i)) (map mapping_of (user_rows u d)))"
    by (simp add: mapping_of_def image_image)
  finally show ?thesis .
qed

lemma get_user_msg_id_Some:
  assumes "get_user_msg_id u t d = Some m"
  shows "\<exists>ts. (u, t, m, ts) \<in> set (map mapping_of (user_rows u d))"
proof -
  obtain r where "find (\<lambda>r. sm_user_id r = u \<and> sm_topic_msg_id r = t) (sent_messages d) = Some r"
    and "sm_user_msg_id r = m"
    using assms by (auto simp: get_user_msg_id_def split: option.splits)
  then have "r \<in> set (user_rows u d)" and "mapping_of r = (u, t, m, sm_created_at r)"
    by (auto simp: find_Some_iff user_rows_def mapping_of_def)
  then show ?thesis
    by (metis image_eqI list.set_map)
qed

text \<open>
  C9, as the code has it. After any sequence of \<open>save_message_mapping\<close> inserts into the
  empty log, the log holds at most 100 rows per user, and they are the 100 most recently
  inserted mappings of that user, in order. \<open>get_user_msg_id\<close> returns None exactly for
  the topic message ids that no surviving mapping of the user carries, and a value it
  returns belongs to a surviving mapping; so the lookup of a pruned mapping's topic message
  id returns None unless a surviving mapping of the user has the same topic message id.
\<close>

theorem mapping_log_bounded:
  assumes "D = run_inserts ins empty_db"
  shows "length (user_rows u D) \<le> 100
       \<and> map mapping_of (user_rows u D) = last_n 100 (user_inserts u ins)
       \<and> (get_user_msg_id u t D = None
            \<longleftrightarrow> t \<notin> set (map (\<lambda>i. fst (snd i)) (last_n 100 (user_inserts u ins))))
       \<and> (\<forall>m. get_user_msg_id u t D = Some m
            \<longrightarrow> (\<exists>ts. (u, t, m, ts) \<in> set (last_n 100 (user_inserts u ins))))
       \<and> (\<forall>i \<in> set (take (length (user_inserts u ins) - 100) (user_inserts u ins)).
             fst (snd i) \<notin> set (map (\<lambda>i. fst (snd i)) (last_n 100 (user_inserts u ins)))
             \<longrightarrow> get_user_msg_id u (fst (snd i)) D = None)"
proof -
  have rows: "map mapping_of (user_rows u D) = last_n 100 (user_inserts u ins)"
    unfolding assms by (rule run_inserts_empty)
  have "length (map mapping_of (user_rows u D)) \<le> 100"
    unfolding rows by (rule length_last_n)
  then have len: "length (user_rows u D) \<le> 100"
    by simp
  have none: "get_user_msg_id u t' D = None
            \<longleftrightarrow> t' \<notin> set (map (\<lambda>i. fst (snd i)) (last_n 100 (user_inserts u ins)))" for t'
    using get_user_msg_id_None [of u t' D] by (simp only: rows)
  have some: "\<forall>m. get_user_msg_id u t D = Some m
            \<longrightarrow> (\<exists>ts. (u, t, m, ts) \<in> set (last_n 100 (user_inserts u ins)))"
    using get_user_msg_id_Some [of u t D] by (simp only: rows) blast
  show ?thesis
    using rows len none some by blast
qed

lemma get_user_msg_id_find:
  "get_user_msg_id u t d
   = map_option (\<lambda>i. fst (snd (snd i)))
       (find (\<lambda>i. fst (snd i) = t) (map mapping_of (user_rows u d)))"
proof -
  have "find (\<lambda>i. fst (snd i) = t) (map mapping_of (filter (\<lambda>r. sm_user_id r = u) rows))
        = map_option mapping_of (find (\<lambda>r. sm_user_id r = u \<and> sm_topic_msg_id r = t) rows)" for rows
    by (induction rows) (simp_all add: mapping_of_def)
  then show ?thesis
    by (simp add: get_user_msg_id_def user_rows_def mapping_of_def option.map_comp comp_def
        split: option.splits)
qed

lemma upto_1_100: "[1..100] = 1 # [2..100]"
  by (simp add: upto_rec1)

lemma user_inserts_demo: "user_inserts 1 demo_inserts = demo_inserts"
  by (simp add: user_inserts_def demo_inserts_def filter_map comp_def)

lemma length_demo_inserts: "length demo_inserts = 101"
  by (simp add: demo_inserts_def)

lemma last_100_demo:
  "last_n 100 demo_inserts = map (\<lambda>k. (1, k, k + 1000, 0)) [2..100] @ [(1, 1, 999, 0)]"
  by (simp add: last_n_def length_demo_inserts) (simp add: demo_inserts_def upto_1_100)

theorem mapping_log_bounded_witness:
  "length (user_rows 1 (run_inserts demo_inserts empty_db)) \<le> 100
   \<and> map mapping_of (user_rows 1 (run_inserts demo_inserts empty_db)) = last_n 100 demo_inserts
   \<and> get_user_msg_id 1 500 (run_inserts demo_inserts empty_db) = None"
proof -
  have "(500::int) \<notin> set (map (\<lambda>i. fst (snd i)) (last_n 100 (user_inserts 1 demo_inserts)))"
    by (auto simp: user_inserts_demo last_100_demo)
  then show ?thesis
    using mapping_log_bounded [OF refl, of 1 demo_inserts 500]
    by (simp add: user_inserts_demo)
qed

text \<open>
  C9, as the specification states it, fails where a topic message id repeats: of the 101
  mappings the first is pruned, yet the lookup of its topic message id finds the last one.
\<close>

theorem pruned_lookup_counterexample:
  "(1, 1, 1001, 0) \<in> set (take (length (user_inserts 1 demo_inserts) - 100) (user_inserts 1 demo_inserts))
   \<and> get_user_msg_id 1 1 (run_inserts demo_inserts empty_db) = Some 999"
proof -
  have "take 1 demo_inserts = [(1, 1, 1001, 0)]"
    by (simp add: demo_inserts_def upto_1_100)
  then have pruned: "(1, 1, 1001, 0) \<in> set (take (length (user_inserts 1 demo_inserts) - 100) (user_inserts 1 demo_inserts))"
    by (simp add: user_inserts_demo length_demo_inserts)
  have "find (\<lambda>i. fst (snd i) = 1) (map (\<lambda>k. (1::int, k, k + 1000, 0::int)) [2..100]) = None"
    by (auto simp: find_None_iff)
  then have "find (\<lambda>i. fst (snd i) = 1) (last_n 100 (user_inserts 1 demo_inserts)) = Some (1, 1, 999, 0)"
    by (simp add: user_inserts_demo last_100_demo find_snoc)
  then have "get_user_msg_id 1 1 (run_inserts demo_inserts empty_db) = Some 999"
    by (simp add: get_user_msg_id_find run_inserts_empty)
  then show ?thesis
    using pruned by simp
qed

end
